theory Spec2Isabelle
  imports Complex_Main "HOL-Library.Word"
begin

section \<open>MapSketcher: the point-cloud store of \<open>scripts/sketcher.py\<close>\<close>

text \<open>
  The store is the class \<open>PointCloud3D\<close>. Its two numpy arrays of shape \<open>(N, 3)\<close> are
  lists of triples, row \<open>i\<close> of the array being element \<open>i\<close> of the list. The float64
  entries are idealised as reals: sums, products and comparisons are exact here, and the
  rounding error of the machine operations is outside the model. \<open>undo_stack\<close> is the Python
  list as it is: \<open>append\<close> adds at the end, \<open>pop\<close> takes the last element, so the list
  reads from the bottom of the stack to its top.
\<close>

type_synonym point = "real \<times> real \<times> real"
type_synonym color = "real \<times> real \<times> real"

record PointCloud3D =
  points :: "point list"
  colors :: "color list"
  undo_stack :: "(nat \<times> nat) list"
  cloud_height :: real
  export_layer_height :: real
  export_layer_count :: int

definition PointCloud3D_init :: PointCloud3D where
  "PointCloud3D_init =
     \<lparr> points = [], colors = [], undo_stack = [],
       cloud_height = 25 / 100, export_layer_height = 25 / 100, export_layer_count = 10 \<rparr>"

subsection \<open>\<open>add_square\<close>\<close>

text \<open>
  \<open>int(np.sqrt(pts))\<close> of a positive integer: the integer square root, computed by
  counting up. Lemma \<open>isqrt_floor_sqrt\<close> below shows it is the floor of the real root; the
  rounding of the float64 root, which matters only for counts far beyond what a buffer can
  hold, is outside the model.
\<close>

primrec isqrt :: "nat \<Rightarrow> nat" where
  "isqrt 0 = 0"
| "isqrt (Suc m) = (let r = isqrt m in if (r + 1) * (r + 1) \<le> Suc m then r + 1 else r)"

text \<open>
  \<open>np.linspace(start, stop, num)\<close> with the default \<open>endpoint=True\<close>: \<open>num\<close> samples
  \<open>start + i * (stop - start) / (num - 1)\<close>; with \<open>num = 1\<close> the divisor is zero and numpy
  returns the single sample \<open>start\<close>.
\<close>

definition linspace :: "real \<Rightarrow> real \<Rightarrow> nat \<Rightarrow> real list" where
  "linspace start stop num =
     (if num = 1 then [start]
      else map (\<lambda>i. start + real i * ((stop - start) / real (num - 1))) [0..<num])"

text \<open>
  \<open>np.meshgrid(xs, ys)\<close> followed by \<open>ravel\<close> and \<open>column_stack\<close>: the rows run over
  \<open>ys\<close>, and inside a row over \<open>xs\<close>.
\<close>

definition meshgrid_xy :: "real list \<Rightarrow> real list \<Rightarrow> (real \<times> real) list" where
  "meshgrid_xy xs ys = concat (map (\<lambda>yv. map (\<lambda>xv. (xv, yv)) xs) ys)"

definition default_color :: color where
  "default_color = (2 / 10, 6 / 10, 9 / 10)"

definition square_points :: "real \<Rightarrow> real \<Rightarrow> real \<Rightarrow> int \<Rightarrow> point list" where
  "square_points x y sz pts =
     (let pts' = max 1 pts;
          n0 = isqrt (nat pts');
          n = (if n0 < 1 then 1 else n0);
          xs = map (\<lambda>v. v + x) (linspace (- sz / 2) (sz / 2) n);
          ys = map (\<lambda>v. v + y) (linspace (- sz / 2) (sz / 2) n);
          xy = meshgrid_xy xs ys
      in map (\<lambda>(xv, yv). (xv, yv, 0)) xy)"

definition add_square :: "PointCloud3D \<Rightarrow> real \<Rightarrow> real \<Rightarrow> real \<Rightarrow> int \<Rightarrow> color \<Rightarrow> nat \<times> PointCloud3D" where
  "add_square s x y sz pts color =
     (let pts3 = square_points x y sz pts;
          cols = replicate (length pts3) color;
          start = length (points s);
          count = length pts3;
          s1 = s\<lparr>undo_stack := undo_stack s @ [(start, count)]\<rparr>
      in if start = 0
         then (count, s1\<lparr>points := pts3, colors := cols\<rparr>)
         else (count, s1\<lparr>points := points s @ pts3, colors := colors s @ cols\<rparr>))"

subsection \<open>\<open>undo\<close> and \<open>clear\<close>\<close>

text \<open>A slice \<open>a[:start]\<close> past the end of the array is the whole array, as \<open>take\<close> is.\<close>

definition undo :: "PointCloud3D \<Rightarrow> bool \<times> PointCloud3D" where
  "undo s =
     (if undo_stack s = [] then (False, s)
      else
        (let (start, count) = last (undo_stack s);
             s1 = s\<lparr>undo_stack := butlast (undo_stack s)\<rparr>
         in if start = 0
            then (True, s1\<lparr>points := [], colors := []\<rparr>)
            else (True, s1\<lparr>points := take start (points s), colors := take start (colors s)\<rparr>)))"

definition clear :: "PointCloud3D \<Rightarrow> bool \<times> PointCloud3D" where
  "clear s =
     (if points s = [] then (False, s)
      else (True, s\<lparr>undo_stack := undo_stack s @ [(0, length (points s))],
                     points := [], colors := []\<rparr>))"

subsection \<open>\<open>build_3d_layers\<close>\<close>

text \<open>
  \<open>astype(np.uint8)\<close> of a float: the fraction is dropped (the value moves towards zero)
  and the integer is kept modulo 256. Channels between 0 and 1 give values from 0 to 255.
\<close>

definition astype_uint8 :: "real \<Rightarrow> 8 word" where
  "astype_uint8 r = word_of_int (if r < 0 then \<lceil>r\<rceil> else \<lfloor>r\<rfloor>)"

type_synonym rgb8 = "8 word \<times> 8 word \<times> 8 word"

definition base_cols :: "PointCloud3D \<Rightarrow> rgb8 list" where
  "base_cols s =
     map (\<lambda>(r, g, b). (astype_uint8 (r * 255), astype_uint8 (g * 255), astype_uint8 (b * 255)))
       (colors s)"

definition layer_points :: "point list \<Rightarrow> real \<Rightarrow> nat \<Rightarrow> point list" where
  "layer_points base_pts step i = map (\<lambda>(x, y, z). (x, y, z + real i * step)) base_pts"

definition build_3d_layers :: "PointCloud3D \<Rightarrow> (point list \<times> rgb8 list) option" where
  "build_3d_layers s =
     (if points s = [] then None
      else
        (let layers = nat (max 1 (export_layer_count s));
             step = \<bar>export_layer_height s\<bar>
         in Some (concat (map (\<lambda>i. layer_points (points s) step i) [0..<layers]),
                  concat (map (\<lambda>i. base_cols s) [0..<layers]))))"

subsection \<open>\<open>save_ply\<close> and \<open>save_pcd\<close>\<close>

text \<open>
  A written file is its header text and the sequence of packed fields that follow it: a
  field keeps the value handed to \<open>struct.pack\<close> and the format character it is packed
  with (\<open>f\<close>, \<open>B\<close>, \<open>I\<close>), not the bytes; how a value is rounded to a 32-bit float, and
  the \<open>OverflowError\<close> of a value beyond the range of one, are outside the model. The file
  system maps names to files; \<open>open(filename, "wb")\<close> raises on a name the system refuses,
  and otherwise creates or truncates the file.

  A save returns the outcome of the call, an exception or the returned boolean, and the
  file system after it. In the loop over the points, \<open>pts[i]\<close> is written before \<open>cols[i]\<close>
  is read, so when there are fewer colours than points the file keeps the complete records
  before the first missing colour and the three coordinates of the point that misses it,
  and the call raises \<open>IndexError\<close>.
\<close>

datatype py_error = IndexError | OSError

datatype field = F32 real | U8 "8 word" | U32 "32 word"

record written_file =
  header :: string
  body :: "field list"

record filesystem =
  files :: "string \<rightharpoonup> written_file"
  refused :: "string set"

definition digit_char :: "nat \<Rightarrow> char" where
  "digit_char d = ''0123456789'' ! d"

function show_nat :: "nat \<Rightarrow> string" where
  "show_nat n = (if n < 10 then [digit_char n] else show_nat (n div 10) @ [digit_char (n mod 10)])"
  by pat_completeness auto
termination
  by (relation "measure id") auto

definition xyz_fields :: "point \<Rightarrow> field list" where
  "xyz_fields p = (case p of (x, y, z) \<Rightarrow> [F32 x, F32 y, F32 z])"

definition write_records ::
  "(rgb8 \<Rightarrow> field list) \<Rightarrow> point list \<Rightarrow> rgb8 list \<Rightarrow> (py_error + bool) \<times> field list" where
  "write_records color_fields pts cols =
     (if length cols < length pts
      then (Inl IndexError,
            concat (map (\<lambda>i. xyz_fields (pts ! i) @ color_fields (cols ! i)) [0..<length cols]) @
            xyz_fields (pts ! length cols))
      else (Inr True,
            concat (map (\<lambda>i. xyz_fields (pts ! i) @ color_fields (cols ! i)) [0..<length pts])))"

definition ply_header :: "nat \<Rightarrow> string" where
  "ply_header n =
     ''ply\<newline>format binary_little_endian 1.0\<newline>'' @
     ''element vertex '' @ show_nat n @ ''\<newline>'' @
     ''property float x\<newline>property float y\<newline>property float z\<newline>'' @
     ''property uchar red\<newline>property uchar green\<newline>property uchar blue\<newline>'' @
     ''end_header\<newline>''"

definition ply_color_fields :: "rgb8 \<Rightarrow> field list" where
  "ply_color_fields c = (case c of (r, g, b) \<Rightarrow> [U8 r, U8 g, U8 b])"

definition save_ply ::
  "PointCloud3D \<Rightarrow> string \<Rightarrow> filesystem \<Rightarrow> (py_error + bool) \<times> filesystem" where
  "save_ply s filename fs =
     (case build_3d_layers s of
        None \<Rightarrow> (Inr False, fs)
      | Some (pts, cols) \<Rightarrow>
          if filename \<in> refused fs then (Inl OSError, fs)
          else
            (let (outcome, fields) = write_records ply_color_fields pts cols
             in (outcome, fs\<lparr>files := (files fs)(filename \<mapsto>
                   \<lparr> header = ply_header (length pts), body = fields \<rparr>)\<rparr>)))"

definition pcd_header :: "nat \<Rightarrow> string" where
  "pcd_header n =
     ''# .PCD v0.7\<newline>VERSION 0.7\<newline>FIELDS x y z rgb\<newline>'' @
     ''SIZE 4 4 4 4\<newline>TYPE F F F U\<newline>COUNT 1 1 1 1\<newline>'' @
     ''WIDTH '' @ show_nat n @ ''\<newline>HEIGHT 1\<newline>VIEWPOINT 0 0 0 1 0 0 0\<newline>'' @
     ''POINTS '' @ show_nat n @ ''\<newline>DATA binary\<newline>''"

definition pcd_color_fields :: "rgb8 \<Rightarrow> field list" where
  "pcd_color_fields c =
     (case c of (r, g, b) \<Rightarrow>
        [U32 (or (or (push_bit 16 (ucast r)) (push_bit 8 (ucast g))) (ucast b))])"

definition save_pcd ::
  "PointCloud3D \<Rightarrow> string \<Rightarrow> filesystem \<Rightarrow> (py_error + bool) \<times> filesystem" where
  "save_pcd s filename fs =
     (case build_3d_layers s of
        None \<Rightarrow> (Inr False, fs)
      | Some (pts, cols) \<Rightarrow>
          if filename \<in> refused fs then (Inl OSError, fs)
          else
            (let (outcome, fields) = write_records pcd_color_fields pts cols
             in (outcome, fs\<lparr>files := (files fs)(filename \<mapsto>
                   \<lparr> header = pcd_header (length pts), body = fields \<rparr>)\<rparr>)))"

subsection \<open>Sequences of store operations\<close>

text \<open>
  An operation of a sequence runs on the store and the file system; an exception of a save
  ends that operation only, and the file system keeps what the save wrote before it.
\<close>

datatype op =
    Add_square real real real int color
  | Undo
  | Clear
  | Build_3d_layers
  | Save_ply string
  | Save_pcd string

fun exec_op :: "PointCloud3D \<times> filesystem \<Rightarrow> op \<Rightarrow> PointCloud3D \<times> filesystem" where
  "exec_op (s, fs) (Add_square x y sz pts c) = (snd (add_square s x y sz pts c), fs)"
| "exec_op (s, fs) Undo = (snd (undo s), fs)"
| "exec_op (s, fs) Clear = (snd (clear s), fs)"
| "exec_op (s, fs) Build_3d_layers = (s, fs)"
| "exec_op (s, fs) (Save_ply filename) = (s, snd (save_ply s filename fs))"
| "exec_op (s, fs) (Save_pcd filename) = (s, snd (save_pcd s filename fs))"

definition run_ops :: "PointCloud3D \<times> filesystem \<Rightarrow> op list \<Rightarrow> PointCloud3D \<times> filesystem" where
  "run_ops = foldl exec_op"

text \<open>Runs of one operation: a list of \<open>add_square\<close> calls, and \<open>k\<close> calls of \<open>undo\<close>.\<close>

type_synonym square_args = "real \<times> real \<times> real \<times> int \<times> color"

fun add_squares :: "PointCloud3D \<Rightarrow> square_args list \<Rightarrow> PointCloud3D" where
  "add_squares s [] = s"
| "add_squares s ((x, y, sz, pts, c) # rest) = add_squares (snd (add_square s x y sz pts c)) rest"

fun undo_n :: "nat \<Rightarrow> PointCloud3D \<Rightarrow> PointCloud3D" where
  "undo_n 0 s = s"
| "undo_n (Suc k) s = undo_n k (snd (undo s))"

text \<open>
  The batches of a stack, read from its top, tile the buffer: the top batch ends at the
  length of the buffer, each batch starts where the one below it ends, the bottom one at 0.
\<close>

fun batches_tile :: "(nat \<times> nat) list \<Rightarrow> nat \<Rightarrow> bool" where
  "batches_tile [] n = (n = 0)"
| "batches_tile ((start, count) # below) n =
     (start + count = n \<and> 0 < count \<and> batches_tile below start)"

definition empty_fs :: filesystem where
  "empty_fs = \<lparr> files = Map.empty, refused = {} \<rparr>"

text \<open>The store after one call \<open>add_square(0, 0, 1.0, 1)\<close> on a new store.\<close>

definition one_point_store :: PointCloud3D where
  "one_point_store = snd (add_square PointCloud3D_init 0 0 1 1 default_color)"

text \<open>
  The 8-bit channels read as integers, and the two conversions of a float colour the
  properties below compare: the fraction dropped, and the conversion as the specification
  words it, ``scaled to [0,255] and rounded to integers''.
\<close>

definition rgb_ints :: "rgb8 \<Rightarrow> int \<times> int \<times> int" where
  "rgb_ints c = (case c of (r, g, b) \<Rightarrow> (uint r, uint g, uint b))"

definition truncated_rgb :: "color \<Rightarrow> int \<times> int \<times> int" where
  "truncated_rgb c = (case c of (r, g, b) \<Rightarrow> (\<lfloor>r * 255\<rfloor>, \<lfloor>g * 255\<rfloor>, \<lfloor>b * 255\<rfloor>))"

definition spec_rounded_rgb :: "color \<Rightarrow> int \<times> int \<times> int" where
  "spec_rounded_rgb c = (case c of (r, g, b) \<Rightarrow> (round (r * 255), round (g * 255), round (b * 255)))"

definition unit_color :: "color \<Rightarrow> bool" where
  "unit_color c = (case c of (r, g, b) \<Rightarrow> 0 \<le> r \<and> r \<le> 1 \<and> 0 \<le> g \<and> g \<le> 1 \<and> 0 \<le> b \<and> b \<le> 1)"

text \<open>The side \<open>n\<close> of the grid that \<open>add_square\<close> builds for a target count.\<close>

definition grid_side :: "int \<Rightarrow> nat" where
  "grid_side pts = isqrt (nat (max 1 pts))"

section \<open>The controller \<open>PointCloudApp\<close>\<close>

text \<open>
  Of the class \<open>PointCloudApp\<close> the model keeps the fields that the event handlers read and
  write, and two records of what the handlers ask of the toolkit: \<open>after_queue\<close>, the timer
  callbacks registered with \<open>root.after\<close> and not yet run (the only callback ever
  registered is \<open>_perform_scheduled_redraw\<close>, so an entry is the delay it was registered
  with), and \<open>draws\<close>, the log of the calls \<open>canvas.draw()\<close> and \<open>canvas.draw_idle()\<close>, each
  with the content of the scatter plot at the call. A matplotlib mouse event carries \<open>xdata\<close>
  and \<open>ydata\<close> together, both \<open>None\<close> outside the axes, so the event holds them as one
  optional pair.
\<close>

type_synonym frame = "((real \<times> real) list \<times> color list) option"

datatype draw_call = Draw | Draw_idle

record MouseEvent =
  button :: int
  xydata :: "(real \<times> real) option"

record PointCloudApp =
  pc :: PointCloud3D
  points_per_cloud :: int
  cloud_size :: real
  map_width :: real
  map_height :: real
  map_dpi :: int
  redraw_scheduled :: bool
  redraw_interval_ms :: int
  scatter_obj :: frame
  mouse_down :: bool
  last_pos :: "(real \<times> real) option"
  after_queue :: "int list"
  draws :: "(draw_call \<times> frame) list"

text \<open>
  \<open>update_view\<close>. Above \<open>MAX_DISPLAY = 30000\<close> points the display takes the 30000 indices
  \<open>np.linspace(0, total-1, MAX_DISPLAY).astype(int)\<close>; the \<open>total\<close> of the source is \<open>n\<close>
  here. Indexing an array with a list of indices raises \<open>IndexError\<close> when an index is out
  of range, which \<open>colors[disp_idx]\<close> does when the colors array is shorter than the points
  array. The limits and the aspect of the axes are not part of the model.
\<close>

definition MAX_DISPLAY :: nat where
  "MAX_DISPLAY = 30000"

definition disp_idx :: "nat \<Rightarrow> nat list" where
  "disp_idx n =
     (if n \<le> MAX_DISPLAY then [0..<n]
      else map (\<lambda>v. nat \<lfloor>v\<rfloor>) (linspace 0 (real (n - 1)) MAX_DISPLAY))"

definition take_rows :: "'a list \<Rightarrow> nat list \<Rightarrow> py_error + 'a list" where
  "take_rows rows idx =
     (if list_all (\<lambda>i. i < length rows) idx then Inr (map (\<lambda>i. rows ! i) idx) else Inl IndexError)"

definition display_frame :: "PointCloud3D \<Rightarrow> py_error + frame" where
  "display_frame s =
     (let n = length (points s)
      in if n = 0 then Inr None
         else
           (case take_rows (points s) (disp_idx n) of
              Inl e \<Rightarrow> Inl e
            | Inr rows \<Rightarrow>
                (case take_rows (colors s) (disp_idx n) of
                   Inl e \<Rightarrow> Inl e
                 | Inr cols \<Rightarrow> Inr (Some (map (\<lambda>(x, y, z). (x, y)) rows, cols)))))"

definition update_view :: "bool \<Rightarrow> PointCloudApp \<Rightarrow> py_error + PointCloudApp" where
  "update_view initial a =
     (case display_frame (pc a) of
        Inl e \<Rightarrow> Inl e
      | Inr None \<Rightarrow> Inr (a\<lparr>scatter_obj := None, draws := draws a @ [(Draw_idle, None)]\<rparr>)
      | Inr (Some fr) \<Rightarrow>
          Inr (a\<lparr>scatter_obj := Some fr,
                 draws := draws a @ [(if initial then Draw else Draw_idle, Some fr)]\<rparr>))"

definition PointCloudApp_init :: PointCloudApp where
  "PointCloudApp_init =
     \<lparr> pc = PointCloud3D_init, points_per_cloud = 200, cloud_size = 1,
       map_width = 20, map_height = 15, map_dpi = 100,
       redraw_scheduled = False, redraw_interval_ms = 30, scatter_obj = None,
       mouse_down = False, last_pos = None, after_queue = [], draws = [(Draw_idle, None)] \<rparr>"

text \<open>\<open>add_cloud_quick\<close> and the timer callback \<open>_perform_scheduled_redraw\<close>.\<close>

definition add_cloud_quick :: "PointCloudApp \<Rightarrow> real \<Rightarrow> real \<Rightarrow> PointCloudApp" where
  "add_cloud_quick a x y =
     (let a1 = a\<lparr>pc := snd (add_square (pc a) x y (cloud_size a) (points_per_cloud a) default_color)\<rparr>
      in if \<not> redraw_scheduled a1
         then a1\<lparr>redraw_scheduled := True, after_queue := after_queue a1 @ [redraw_interval_ms a1]\<rparr>
         else a1)"

definition perform_scheduled_redraw :: "PointCloudApp \<Rightarrow> py_error + PointCloudApp" where
  "perform_scheduled_redraw a = update_view False (a\<lparr>redraw_scheduled := False\<rparr>)"

text \<open>
  The toolkit runs a registered callback once, when its delay has passed: the oldest entry
  leaves the queue and \<open>_perform_scheduled_redraw\<close> runs. With an empty queue nothing fires.
\<close>

definition fire_after :: "PointCloudApp \<Rightarrow> py_error + PointCloudApp" where
  "fire_after a =
     (case after_queue a of
        [] \<Rightarrow> Inr a
      | d # rest \<Rightarrow> perform_scheduled_redraw (a\<lparr>after_queue := rest\<rparr>))"

fun add_clouds :: "PointCloudApp \<Rightarrow> (real \<times> real) list \<Rightarrow> PointCloudApp" where
  "add_clouds a [] = a"
| "add_clouds a ((x, y) # rest) = add_clouds (add_cloud_quick a x y) rest"

text \<open>The mouse handlers.\<close>

definition mouse_press :: "PointCloudApp \<Rightarrow> MouseEvent \<Rightarrow> PointCloudApp" where
  "mouse_press a ev =
     (case xydata ev of
        None \<Rightarrow> a
      | Some (x, y) \<Rightarrow>
          if button ev = 1
          then add_cloud_quick (a\<lparr>mouse_down := True, last_pos := Some (x, y)\<rparr>) x y
          else a)"

definition mouse_release :: "PointCloudApp \<Rightarrow> MouseEvent \<Rightarrow> PointCloudApp" where
  "mouse_release a ev = a\<lparr>mouse_down := False, last_pos := None\<rparr>"

definition mouse_move :: "PointCloudApp \<Rightarrow> MouseEvent \<Rightarrow> PointCloudApp" where
  "mouse_move a ev =
     (if \<not> mouse_down a then a
      else
        (case xydata ev of
           None \<Rightarrow> a
         | Some (x, y) \<Rightarrow>
             (case last_pos a of
                None \<Rightarrow> a\<lparr>last_pos := Some (x, y)\<rparr>
              | Some (lx, ly) \<Rightarrow>
                  if (x - lx)\<^sup>2 + (y - ly)\<^sup>2 > 5 / 10000
                  then add_cloud_quick (a\<lparr>last_pos := Some (x, y)\<rparr>) x y
                  else a)))"

text \<open>
  The buttons. \<open>undo\<close> and \<open>clear\<close> of the application redraw at once when the store
  reports a change; \<open>clear\<close> first asks for a confirmation, whose answer comes with the
  event. \<open>update_settings\<close> reads the seven entries, here with the numbers already parsed
  from them, clamps them and redraws at once.
\<close>

definition app_undo :: "PointCloudApp \<Rightarrow> py_error + PointCloudApp" where
  "app_undo a =
     (let (changed, s) = undo (pc a)
      in if changed then update_view False (a\<lparr>pc := s\<rparr>) else Inr (a\<lparr>pc := s\<rparr>))"

definition app_clear :: "PointCloudApp \<Rightarrow> bool \<Rightarrow> py_error + PointCloudApp" where
  "app_clear a answer =
     (if answer
      then (let (changed, s) = clear (pc a)
            in if changed then update_view False (a\<lparr>pc := s\<rparr>) else Inr (a\<lparr>pc := s\<rparr>))
      else Inr a)"

record Settings =
  points_var :: int
  size_var :: real
  width_var :: real
  height_var :: real
  dpi_var :: int
  export_height_var :: real
  export_count_var :: int

definition update_settings :: "PointCloudApp \<Rightarrow> Settings \<Rightarrow> py_error + PointCloudApp" where
  "update_settings a v =
     update_view False
       (a\<lparr>points_per_cloud := max 1 (points_var v),
          cloud_size := size_var v,
          map_width := width_var v,
          map_height := height_var v,
          map_dpi := max 30 (min 800 (dpi_var v)),
          pc := (pc a)\<lparr>export_layer_height := \<bar>export_height_var v\<bar>,
                         export_layer_count := max 1 (export_count_var v)\<rparr>\<rparr>)"

text \<open>
  The events of a session, each handled to completion before the next: the three mouse
  events, a timer callback that falls due, and the buttons Undo, Clear (with the answer to
  the confirmation), Apply and Refresh. A run ends at the first exception. The buttons
  Save PLY and Save PCD write a file and assign no attribute of the application or of the
  store, so a session needs no event for them.
\<close>

datatype event =
    Button_press MouseEvent
  | Button_release MouseEvent
  | Motion_notify MouseEvent
  | Timer_fires
  | Undo_clicked
  | Clear_clicked bool
  | Apply_clicked Settings
  | Refresh_clicked

fun handle :: "PointCloudApp \<Rightarrow> event \<Rightarrow> py_error + PointCloudApp" where
  "handle a (Button_press ev) = Inr (mouse_press a ev)"
| "handle a (Button_release ev) = Inr (mouse_release a ev)"
| "handle a (Motion_notify ev) = Inr (mouse_move a ev)"
| "handle a Timer_fires = fire_after a"
| "handle a Undo_clicked = app_undo a"
| "handle a (Clear_clicked answer) = app_clear a answer"
| "handle a (Apply_clicked v) = update_settings a v"
| "handle a Refresh_clicked = update_view False a"

fun run_events :: "PointCloudApp \<Rightarrow> event list \<Rightarrow> py_error + PointCloudApp" where
  "run_events a [] = Inr a"
| "run_events a (e # es) =
     (case handle a e of Inl err \<Rightarrow> Inl err | Inr a' \<Rightarrow> run_events a' es)"

text \<open>
  What a redraw shows of a store: nothing when it is empty, otherwise the rows that
  \<open>disp_idx\<close> selects, as pairs \<open>(x, y)\<close> with their colours.
\<close>

definition shown_frame :: "PointCloud3D \<Rightarrow> frame" where
  "shown_frame s =
     (if points s = [] then None
      else Some (map (\<lambda>i. case points s ! i of (x, y, z) \<Rightarrow> (x, y)) (disp_idx (length (points s))),
                 map (\<lambda>i. colors s ! i) (disp_idx (length (points s)))))"

text \<open>
  A session that puts a store above the display cap: Apply with 40000 points per cloud, a
  press at (0, 0) that appends the 200 by 200 grid, the redraw that falls due, and Apply
  with 1 point per cloud.
\<close>

definition default_settings :: Settings where
  "default_settings =
     \<lparr> points_var = 200, size_var = 1, width_var = 20, height_var = 15, dpi_var = 100,
       export_height_var = 25 / 100, export_count_var = 10 \<rparr>"

definition capped_session :: "event list" where
  "capped_session =
     [Apply_clicked (default_settings\<lparr>points_var := 40000\<rparr>),
      Button_press \<lparr>button = 1, xydata = Some (0, 0)\<rparr>,
      Timer_fires,
      Apply_clicked (default_settings\<lparr>points_var := 1\<rparr>)]"

definition capped_store :: PointCloud3D where
  "capped_store = snd (add_square PointCloud3D_init 0 0 1 40000 default_color)"

definition capped_app :: PointCloudApp where
  "capped_app =
     PointCloudApp_init
       \<lparr> pc := capped_store, points_per_cloud := 1, scatter_obj := shown_frame capped_store,
         mouse_down := True, last_pos := Some (0, 0),
         draws := [(Draw_idle, None), (Draw_idle, None), (Draw_idle, shown_frame capped_store),
                   (Draw_idle, shown_frame capped_store)] \<rparr>"



text \<open>The arguments that \<open>add_cloud_quick\<close> hands to \<open>add_square\<close> for a list of positions.\<close>

definition cloud_args :: "PointCloudApp \<Rightarrow> (real \<times> real) list \<Rightarrow> square_args list" where
  "cloud_args a cs = map (\<lambda>(x, y). (x, y, cloud_size a, points_per_cloud a, default_color)) cs"

text \<open>
  What holds of the application between two events: the delay is the 30 that \<open>__init__\<close>
  sets, the two buffers of the store have the same length, and the callbacks registered
  and not yet run are one, with that delay, when the flag \<open>redraw_scheduled\<close> is set, and
  none when it is clear.
\<close>

definition app_inv :: "PointCloudApp \<Rightarrow> bool" where
  "app_inv a =
     (redraw_interval_ms a = 30 \<and> length (colors (pc a)) = length (points (pc a)) \<and>
      after_queue a = (if redraw_scheduled a then [30] else []))"

section \<open>Properties of the store\<close>

subsection \<open>Basic facts\<close>

lemma square_points_1: "square_points x y sz 1 = [(- sz / 2 + x, - sz / 2 + y, 0)]"
  by (simp add: square_points_def linspace_def meshgrid_xy_def)

lemma one_point_store_eq:
  "one_point_store =
     \<lparr> points = [(- 1 / 2, - 1 / 2, 0)], colors = [default_color], undo_stack = [(0, 1)],
       cloud_height = 25 / 100, export_layer_height = 25 / 100, export_layer_count = 10 \<rparr>"
  by (simp add: one_point_store_def add_square_def square_points_1 PointCloud3D_init_def)

lemma length_square_points_pos: "0 < length (square_points x y sz pts)"
proof -
  have "0 < (if isqrt (nat (max 1 pts)) < 1 then 1 else isqrt (nat (max 1 pts)))" by simp
  then show ?thesis
    by (simp add: square_points_def meshgrid_xy_def linspace_def Let_def length_concat
        sum_list_triv comp_def)
qed

subsection \<open>The two buffers have the same length\<close>

lemma add_square_lengths:
  "length (colors s) = length (points s) \<Longrightarrow>
   length (colors (snd (add_square s x y sz pts c))) = length (points (snd (add_square s x y sz pts c)))"
  by (simp add: add_square_def Let_def)

lemma undo_lengths:
  "length (colors s) = length (points s) \<Longrightarrow>
   length (colors (snd (undo s))) = length (points (snd (undo s)))"
  by (simp add: undo_def Let_def split: prod.splits)

lemma clear_lengths:
  "length (colors s) = length (points s) \<Longrightarrow>
   length (colors (snd (clear s))) = length (points (snd (clear s)))"
  by (simp add: clear_def)

lemma exec_op_lengths:
  "length (colors (fst st)) = length (points (fst st)) \<Longrightarrow>
   length (colors (fst (exec_op st op))) = length (points (fst (exec_op st op)))"
  by (cases st; cases op)
     (simp_all add: add_square_lengths undo_lengths clear_lengths split: sum.splits prod.splits)

lemma run_ops_lengths:
  "length (colors (fst st)) = length (points (fst st)) \<Longrightarrow>
   length (colors (fst (run_ops st ops))) = length (points (fst (run_ops st ops)))"
  unfolding run_ops_def
  by (induction ops arbitrary: st) (simp_all add: exec_op_lengths)

text \<open>
  Claim C10. Start from a new store and run any sequence of \<open>add_square\<close>, \<open>undo\<close>,
  \<open>clear\<close>, \<open>build_3d_layers\<close>, \<open>save_ply\<close> and \<open>save_pcd\<close> calls: after every
  operation of the sequence (after its first \<open>n\<close> operations, for every \<open>n\<close>) the points
  buffer and the colors buffer have the same length.
\<close>

theorem points_colors_same_length:
  "length (points (fst (run_ops (PointCloud3D_init, fs) (take n ops)))) =
   length (colors (fst (run_ops (PointCloud3D_init, fs) (take n ops))))"
  using run_ops_lengths [of "(PointCloud3D_init, fs)" "take n ops"]
  by (simp add: PointCloud3D_init_def)

subsection \<open>Undo after appends\<close>

lemma undo_add_square:
  "length (colors s) = length (points s) \<Longrightarrow> undo (snd (add_square s x y sz pts c)) = (True, s)"
  by (auto simp: undo_def add_square_def Let_def)

lemma add_squares_lengths:
  "length (colors s) = length (points s) \<Longrightarrow>
   length (colors (add_squares s as)) = length (points (add_squares s as))"
  by (induction s as rule: add_squares.induct) (simp_all add: add_square_lengths)

lemma add_squares_append: "add_squares s (as @ bs) = add_squares (add_squares s as) bs"
  by (induction s as rule: add_squares.induct) simp_all

lemma add_squares_snoc:
  "add_squares s (as @ [(x, y, sz, pts, c)]) = snd (add_square (add_squares s as) x y sz pts c)"
  by (simp add: add_squares_append)

lemma undo_n_add_squares:
  assumes "length (colors s) = length (points s)"
  shows "undo_n (length bs) (add_squares s (as @ bs)) = add_squares s as"
proof (induction bs rule: rev_induct)
  case Nil
  then show ?case by simp
next
  case (snoc b bs)
  obtain x y sz pts c where b: "b = (x, y, sz, pts, c)" by (cases b)
  have len: "length (colors (add_squares s (as @ bs))) = length (points (add_squares s (as @ bs)))"
    using assms by (rule add_squares_lengths)
  have "add_squares s (as @ bs @ [b]) = snd (add_square (add_squares s (as @ bs)) x y sz pts c)"
    using add_squares_snoc [of s "as @ bs"] by (simp add: b)
  then have "snd (undo (add_squares s (as @ bs @ [b]))) = add_squares s (as @ bs)"
    using undo_add_square [OF len] by simp
  then show ?case using snoc.IH by simp
qed

text \<open>
  Claim C4. In a store built from a new one by \<open>add_square\<close> calls only, one \<open>undo\<close>
  after an \<open>add_square\<close> returns true and gives back the store as it was before that
  append (points, colors and the undo stack with them); and after the appends \<open>as\<close>
  followed by the appends \<open>bs\<close>, as many \<open>undo\<close> calls as \<open>bs\<close> has appends give back the
  store as it was after \<open>as\<close>. With \<open>as\<close> empty this is the full history.
\<close>

theorem undo_restores_pre_append:
  "undo (add_squares PointCloud3D_init (as @ [b])) = (True, add_squares PointCloud3D_init as) \<and>
   undo_n (length bs) (add_squares PointCloud3D_init (as @ bs)) = add_squares PointCloud3D_init as"
proof -
  have i: "length (colors PointCloud3D_init) = length (points PointCloud3D_init)"
    by (simp add: PointCloud3D_init_def)
  obtain x y sz pts c where b: "b = (x, y, sz, pts, c)" by (cases b)
  have "undo (add_squares PointCloud3D_init (as @ [b])) = (True, add_squares PointCloud3D_init as)"
    unfolding b add_squares_snoc
    by (rule undo_add_square) (rule add_squares_lengths [OF i])
  then show ?thesis using undo_n_add_squares [OF i] by simp
qed

subsection \<open>Clear and undo\<close>

text \<open>
  On a store whose points buffer is not empty, \<open>clear\<close> returns true, and the \<open>undo\<close> that
  follows at once returns true, removes the batch \<open>(0, len(points))\<close> that \<open>clear\<close> pushed
  and leaves both buffers empty: the batch records how many points were dropped, not the
  points, and \<open>undo\<close> has nothing to put back.
\<close>

lemma clear_then_undo_empties:
  assumes "points s \<noteq> []"
  shows "fst (clear s) \<and> undo (snd (clear s)) = (True, s\<lparr>points := [], colors := []\<rparr>)"
  using assms by (simp add: undo_def clear_def)

text \<open>
  Claim C1 says that \<open>clear\<close> followed at once by \<open>undo\<close> restores the two buffers to
  their contents before the clear. \<open>clear\<close> records itself on the undo stack, which only
  \<open>undo\<close> reads, and \<open>undo\<close> reverses the record of an append; the record of a clear it
  does not reverse. After \<open>add_square(0, 0, 1.0, 1)\<close> on a new store, \<open>clear\<close> returns true,
  the \<open>undo\<close> that follows returns true, and both buffers are empty: the points buffer is
  not the one point it held before the clear.
\<close>

theorem clear_then_undo_not_restored:
  "points one_point_store = [(- 1 / 2, - 1 / 2, 0)] \<and>
   fst (clear one_point_store) \<and> fst (undo (snd (clear one_point_store))) \<and>
   points (snd (undo (snd (clear one_point_store)))) = [] \<and>
   colors (snd (undo (snd (clear one_point_store)))) = [] \<and>
   points (snd (undo (snd (clear one_point_store)))) \<noteq> points one_point_store"
  by (simp add: one_point_store_eq clear_def undo_def)








subsection \<open>The batches on the undo stack\<close>

lemma add_square_tile:
  assumes "batches_tile (rev (undo_stack s)) (length (points s))"
  shows "batches_tile (rev (undo_stack (snd (add_square s x y sz pts c))))
     (length (points (snd (add_square s x y sz pts c))))"
  using assms length_square_points_pos [of x y sz pts]
  by (auto simp: add_square_def Let_def)

lemma undo_tile:
  assumes "batches_tile (rev (undo_stack s)) (length (points s))"
  shows "batches_tile (rev (undo_stack (snd (undo s)))) (length (points (snd (undo s))))"
proof (cases "undo_stack s" rule: rev_cases)
  case Nil
  then show ?thesis using assms by (simp add: undo_def)
next
  case (snoc stk top)
  then show ?thesis using assms by (cases top) (auto simp: undo_def Let_def)
qed

lemma batches_tile_bounds:
  "batches_tile stk n \<Longrightarrow> e \<in> set stk \<Longrightarrow> fst e < n \<and> fst e + snd e \<le> n"
proof (induction stk n rule: batches_tile.induct)
  case (1 n)
  then show ?case by simp
next
  case (2 start count below n)
  show ?case
  proof (cases "e = (start, count)")
    case True
    then show ?thesis using "2.prems" by simp
  next
    case False
    then have "e \<in> set below" using "2.prems" by simp
    moreover have "batches_tile below start" using "2.prems" by simp
    ultimately have "fst e < start \<and> fst e + snd e \<le> start" by (rule "2.IH"[rotated])
    then show ?thesis using "2.prems" by simp
  qed
qed

lemma batches_tile_decreasing: "batches_tile stk n \<Longrightarrow> sorted_wrt (>) (map fst stk)"
proof (induction stk n rule: batches_tile.induct)
  case (1 n)
  then show ?case by simp
next
  case (2 start count below n)
  then have t: "batches_tile below start" by simp
  then have "\<forall>e\<in>set below. fst e < start" using batches_tile_bounds by blast
  then show ?case using "2.IH" t by simp
qed

lemma batches_tile_stack:
  assumes "batches_tile (rev stk) n"
  shows "sorted_wrt (<) (map fst stk) \<and> (\<forall>e\<in>set stk. fst e + snd e \<le> n)"
proof -
  have "sorted_wrt (>) (rev (map fst stk))"
    using batches_tile_decreasing [OF assms] by (simp add: rev_map)
  then have "sorted_wrt (<) (map fst stk)" by (simp add: sorted_wrt_rev)
  moreover have "\<forall>e\<in>set stk. fst e + snd e \<le> n"
    using batches_tile_bounds [OF assms] by simp
  ultimately show ?thesis by simp
qed

lemma exec_op_tile:
  assumes "batches_tile (rev (undo_stack (fst st))) (length (points (fst st)))" "op \<noteq> Clear"
  shows "batches_tile (rev (undo_stack (fst (exec_op st op)))) (length (points (fst (exec_op st op))))"
  using assms
  by (cases st; cases op) (simp_all add: add_square_tile undo_tile split: sum.splits prod.splits)

lemma run_ops_tile:
  assumes "batches_tile (rev (undo_stack (fst st))) (length (points (fst st)))" "Clear \<notin> set ops"
  shows "batches_tile (rev (undo_stack (fst (run_ops st ops)))) (length (points (fst (run_ops st ops))))"
  using assms unfolding run_ops_def
proof (induction ops arbitrary: st)
  case Nil
  then show ?case by simp
next
  case (Cons op ops)
  have "batches_tile (rev (undo_stack (fst (exec_op st op)))) (length (points (fst (exec_op st op))))"
    using Cons.prems by (intro exec_op_tile) auto
  then show ?case using Cons.IH [of "exec_op st op"] Cons.prems by simp
qed

lemma two_adds:
  "run_ops (PointCloud3D_init, empty_fs)
     [Add_square 0 0 1 1 default_color, Add_square 1 1 1 1 default_color] =
   (\<lparr> points = [(- 1 / 2, - 1 / 2, 0), (1 / 2, 1 / 2, 0)],
      colors = [default_color, default_color], undo_stack = [(0, 1), (1, 1)],
      cloud_height = 25 / 100, export_layer_height = 25 / 100, export_layer_count = 10 \<rparr>, empty_fs)"
  by (simp add: run_ops_def add_square_def square_points_1 PointCloud3D_init_def)

text \<open>
  Claim C5 as stated fails for the order of the start indices: after two appends of one
  point each and a \<open>clear\<close>, the stack is \<open>[(0, 1), (1, 1), (0, 2)]\<close> from bottom to top,
  and the start index falls from 1 to 0.
\<close>

theorem stack_unordered_after_clear:
  "undo_stack (fst (run_ops (PointCloud3D_init, empty_fs)
     [Add_square 0 0 1 1 default_color, Add_square 1 1 1 1 default_color, Clear])) =
     [(0, 1), (1, 1), (0, 2)] \<and>
   \<not> sorted (map fst (undo_stack (fst (run_ops (PointCloud3D_init, empty_fs)
     [Add_square 0 0 1 1 default_color, Add_square 1 1 1 1 default_color, Clear]))))"
proof -
  have "run_ops (PointCloud3D_init, empty_fs)
     [Add_square 0 0 1 1 default_color, Add_square 1 1 1 1 default_color, Clear] =
     exec_op (run_ops (PointCloud3D_init, empty_fs)
       [Add_square 0 0 1 1 default_color, Add_square 1 1 1 1 default_color]) Clear"
    by (simp add: run_ops_def)
  then show ?thesis by (simp add: two_adds clear_def)
qed

lemma add_square_push:
  "undo_stack (snd (add_square s x y sz pts c)) =
     undo_stack s @ [(length (points s), fst (add_square s x y sz pts c))] \<and>
   length (points s) + fst (add_square s x y sz pts c) \<le>
     length (points (snd (add_square s x y sz pts c)))"
  by (simp add: add_square_def Let_def)

lemma clear_push:
  "undo_stack (snd (clear s)) =
     (if points s = [] then undo_stack s else undo_stack s @ [(0, length (points s))])"
  by (simp add: clear_def)

lemma undo_pop: "undo_stack (snd (undo s)) = butlast (undo_stack s)"
  by (simp add: undo_def Let_def split: prod.splits)

text \<open>
  Claim C5, amended. Every element pushed onto the undo stack satisfies
  \<open>start_index + count \<le> len(points)\<close> at the time it is pushed, in every store \<open>s\<close>:
  \<open>add_square\<close> pushes \<open>(len(points), count)\<close> for the buffer before the append, which is
  within the buffer the append leaves; \<open>clear\<close> on a non-empty buffer pushes
  \<open>(0, len(points))\<close>, which is within the buffer it is about to empty; \<open>clear\<close> on an empty
  buffer pushes nothing and \<open>undo\<close> only pops. The start indices on the stack are
  non-decreasing from bottom to top in every store reached from a new one by operations
  other than \<open>clear\<close>; there every batch on the stack is also within the current buffer.
\<close>

theorem stack_ordered_without_clear:
  assumes "Clear \<notin> set ops"
  shows "undo_stack (snd (add_square s x y sz pts c)) =
           undo_stack s @ [(length (points s), fst (add_square s x y sz pts c))] \<and>
         fst (last (undo_stack (snd (add_square s x y sz pts c)))) +
           snd (last (undo_stack (snd (add_square s x y sz pts c)))) \<le>
           length (points (snd (add_square s x y sz pts c))) \<and>
         (if points s = [] then undo_stack (snd (clear s)) = undo_stack s
          else undo_stack (snd (clear s)) = undo_stack s @ [(0, length (points s))] \<and>
               fst (last (undo_stack (snd (clear s)))) + snd (last (undo_stack (snd (clear s))))
                 \<le> length (points s)) \<and>
         undo_stack (snd (undo s)) = butlast (undo_stack s) \<and>
         sorted (map fst (undo_stack (fst (run_ops (PointCloud3D_init, fs) ops)))) \<and>
         (\<forall>e\<in>set (undo_stack (fst (run_ops (PointCloud3D_init, fs) ops))).
            fst e + snd e \<le> length (points (fst (run_ops (PointCloud3D_init, fs) ops))))"
proof -
  have "batches_tile (rev (undo_stack (fst (PointCloud3D_init, fs))))
          (length (points (fst (PointCloud3D_init, fs))))"
    by (simp add: PointCloud3D_init_def)
  then have "batches_tile (rev (undo_stack (fst (run_ops (PointCloud3D_init, fs) ops))))
          (length (points (fst (run_ops (PointCloud3D_init, fs) ops))))"
    using assms by (rule run_ops_tile)
  then have "sorted (map fst (undo_stack (fst (run_ops (PointCloud3D_init, fs) ops)))) \<and>
         (\<forall>e\<in>set (undo_stack (fst (run_ops (PointCloud3D_init, fs) ops))).
            fst e + snd e \<le> length (points (fst (run_ops (PointCloud3D_init, fs) ops))))"
    using batches_tile_stack strict_sorted_imp_sorted by blast
  then show ?thesis
    using add_square_push [of s x y sz pts c] clear_push [of s] undo_pop [of s] by simp
qed

theorem stack_ordered_without_clear_witness:
  "Clear \<notin> set [Add_square 0 0 1 1 default_color, Add_square 1 1 1 1 default_color] \<and>
   sorted (map fst (undo_stack (fst (run_ops (PointCloud3D_init, empty_fs)
     [Add_square 0 0 1 1 default_color, Add_square 1 1 1 1 default_color])))) \<and>
   undo_stack (fst (run_ops (PointCloud3D_init, empty_fs)
     [Add_square 0 0 1 1 default_color, Add_square 1 1 1 1 default_color])) = [(0, 1), (1, 1)] \<and>
   undo_stack (snd (add_square one_point_store 1 1 1 1 default_color)) = [(0, 1), (1, 1)] \<and>
   length (points (snd (add_square one_point_store 1 1 1 1 default_color))) = 2 \<and>
   undo_stack (snd (clear one_point_store)) = [(0, 1), (0, 1)]"
proof -
  have h: "Clear \<notin> set [Add_square 0 0 1 1 default_color, Add_square 1 1 1 1 default_color]"
    by simp
  note c5 = stack_ordered_without_clear [OF h, of one_point_store 1 1 1 1 default_color empty_fs]
  have cnt: "fst (add_square one_point_store 1 1 1 1 default_color) = 1"
    "length (points (snd (add_square one_point_store 1 1 1 1 default_color))) = 2"
    by (simp_all add: add_square_def square_points_1 one_point_store_eq)
  have f: "undo_stack one_point_store = [(0, 1)]" "length (points one_point_store) = 1"
    "points one_point_store \<noteq> []"
    by (simp_all add: one_point_store_eq)
  have "undo_stack (snd (add_square one_point_store 1 1 1 1 default_color)) = [(0, 1), (1, 1)]"
    using c5 [THEN conjunct1] by (simp add: cnt f)
  moreover have "undo_stack (snd (clear one_point_store)) = [(0, 1), (0, 1)]"
    using c5 [THEN conjunct2, THEN conjunct2, THEN conjunct1] by (simp add: f)
  moreover have "sorted (map fst (undo_stack (fst (run_ops (PointCloud3D_init, empty_fs)
     [Add_square 0 0 1 1 default_color, Add_square 1 1 1 1 default_color]))))"
    using c5 by blast
  ultimately show ?thesis using h cnt by (simp add: two_adds)
qed

subsection \<open>Export of an empty buffer\<close>

text \<open>
  Claim C9. When the points buffer is empty, \<open>build_3d_layers\<close> returns nothing, and
  \<open>save_ply\<close> and \<open>save_pcd\<close> return false and leave the file system as it was: no file is
  created or written.
\<close>

theorem empty_buffer_no_export:
  assumes "points s = []"
  shows "build_3d_layers s = None \<and> save_ply s filename fs = (Inr False, fs) \<and>
         save_pcd s filename fs = (Inr False, fs)"
  using assms by (simp add: build_3d_layers_def save_ply_def save_pcd_def)

theorem empty_buffer_no_export_witness:
  "points PointCloud3D_init = [] \<and> build_3d_layers PointCloud3D_init = None \<and>
   save_ply PointCloud3D_init ''cloud.ply'' empty_fs = (Inr False, empty_fs) \<and>
   save_pcd PointCloud3D_init ''cloud.pcd'' empty_fs = (Inr False, empty_fs)"
proof -
  have e: "points PointCloud3D_init = []" by (simp add: PointCloud3D_init_def)
  show ?thesis
    using e empty_buffer_no_export [OF e, of "''cloud.ply''" empty_fs]
      empty_buffer_no_export [OF e, of "''cloud.pcd''" empty_fs] by simp
qed

subsection \<open>The grid of \<open>add_square\<close>\<close>

text \<open>
  The integer square root is the largest \<open>r\<close> with \<open>r * r \<le> n\<close>, and it is the floor of
  the real square root that \<open>int(np.sqrt(pts))\<close> takes.
\<close>

lemma isqrt_bounds: "isqrt n * isqrt n \<le> n \<and> n < (isqrt n + 1) * (isqrt n + 1)"
proof (induction n)
  case 0
  show ?case by simp
next
  case (Suc m)
  show ?case
  proof (cases "(isqrt m + 1) * (isqrt m + 1) \<le> Suc m")
    case True
    have "Suc m \<le> (isqrt m + 1) * (isqrt m + 1)" using Suc by simp
    also have "\<dots> < (isqrt m + 1 + 1) * (isqrt m + 1 + 1)" by (simp add: algebra_simps)
    finally show ?thesis using True by (simp add: Let_def)
  next
    case False
    then show ?thesis using Suc by (simp add: Let_def)
  qed
qed

lemma isqrt_floor_sqrt: "int (isqrt n) = \<lfloor>sqrt (real n)\<rfloor>"
proof -
  have le: "real (isqrt n) \<le> sqrt (real n)"
  proof (rule real_le_rsqrt)
    have "real (isqrt n * isqrt n) \<le> real n" using isqrt_bounds [of n] by (simp only: of_nat_le_iff)
    then show "(real (isqrt n))\<^sup>2 \<le> real n" by (simp add: power2_eq_square)
  qed
  have lt: "sqrt (real n) < real (isqrt n) + 1"
  proof (rule real_less_lsqrt)
    show "0 \<le> real (isqrt n) + 1" by simp
    have "real n < real ((isqrt n + 1) * (isqrt n + 1))"
      using isqrt_bounds [of n] by (simp only: of_nat_less_iff)
    then show "real n < (real (isqrt n) + 1)\<^sup>2" by (simp add: power2_eq_square algebra_simps)
  qed
  have "\<lfloor>sqrt (real n)\<rfloor> = int (isqrt n)"
    using le lt by (simp add: floor_eq_iff)
  then show ?thesis by simp
qed

lemma isqrt_pos: "0 < n \<Longrightarrow> 0 < isqrt n"
  using isqrt_bounds [of n] by (cases "isqrt n") simp_all

lemma isqrt_largest: "k * k \<le> n \<Longrightarrow> k \<le> isqrt n"
proof (rule ccontr)
  assume k: "k * k \<le> n" and "\<not> k \<le> isqrt n"
  from \<open>\<not> k \<le> isqrt n\<close> have "isqrt n + 1 \<le> k" by simp
  then have "(isqrt n + 1) * (isqrt n + 1) \<le> k * k" by (intro mult_le_mono)
  then show False using k isqrt_bounds [of n] by simp
qed

lemma isqrt_unique: "r * r \<le> n \<Longrightarrow> n < (r + 1) * (r + 1) \<Longrightarrow> isqrt n = r"
proof (rule antisym)
  assume "n < (r + 1) * (r + 1)"
  show "isqrt n \<le> r"
  proof (rule ccontr)
    assume "\<not> isqrt n \<le> r"
    then have "r + 1 \<le> isqrt n" by simp
    then have "(r + 1) * (r + 1) \<le> isqrt n * isqrt n" by (intro mult_le_mono)
    then show False using \<open>n < (r + 1) * (r + 1)\<close> isqrt_bounds [of n] by simp
  qed
next
  assume "r * r \<le> n"
  then show "r \<le> isqrt n" by (rule isqrt_largest)
qed

lemma isqrt_200: "isqrt 200 = 14"
  by (rule isqrt_unique) simp_all

text \<open>Elements of a concatenation of \<open>L\<close> blocks of the same length \<open>M\<close>.\<close>

lemma concat_map_upt_length:
  "(\<And>i. i < L \<Longrightarrow> length (f i) = M) \<Longrightarrow> length (concat (map f [0..<L])) = L * M"
  by (induction L) simp_all

lemma concat_map_upt_nth:
  assumes "\<And>i. i < L \<Longrightarrow> length (f i) = M" "i < L" "j < M"
  shows "concat (map f [0..<L]) ! (i * M + j) = f i ! j"
  using assms
proof (induction L)
  case 0
  then show ?case by simp
next
  case (Suc L)
  have len: "length (concat (map f [0..<L])) = L * M"
    using Suc.prems(1) by (intro concat_map_upt_length) simp
  show ?case
  proof (cases "i < L")
    case True
    have "i * M + j < L * M"
    proof -
      have "i * M + j < i * M + M" using Suc.prems(3) by simp
      also have "\<dots> = Suc i * M" by simp
      also have "\<dots> \<le> L * M" using True by (intro mult_le_mono1) simp
      finally show ?thesis .
    qed
    then show ?thesis using Suc.IH [OF _ True Suc.prems(3)] Suc.prems(1) len
      by (simp add: nth_append)
  next
    case False
    then have "i = L" using Suc.prems(2) by simp
    then show ?thesis using len by (simp add: nth_append)
  qed
qed

lemma length_linspace: "length (linspace a b n) = n"
  by (simp add: linspace_def)

lemma linspace_nth:
  "2 \<le> n \<Longrightarrow> i < n \<Longrightarrow> linspace a b n ! i = a + real i * ((b - a) / real (n - 1))"
  by (simp add: linspace_def)

lemma length_meshgrid_xy: "length (meshgrid_xy xs ys) = length ys * length xs"
  by (induction ys) (simp_all add: meshgrid_xy_def)

lemma meshgrid_xy_nth:
  assumes "i < length xs" "j < length ys"
  shows "meshgrid_xy xs ys ! (j * length xs + i) = (xs ! i, ys ! j)"
proof -
  have "map (\<lambda>yv. map (\<lambda>xv. (xv, yv)) xs) ys =
        map (\<lambda>j. map (\<lambda>xv. (xv, ys ! j)) xs) [0..<length ys]"
    by (rule nth_equalityI) simp_all
  then have "meshgrid_xy xs ys = concat (map (\<lambda>j. map (\<lambda>xv. (xv, ys ! j)) xs) [0..<length ys])"
    by (simp add: meshgrid_xy_def)
  then have "meshgrid_xy xs ys ! (j * length xs + i) = map (\<lambda>xv. (xv, ys ! j)) xs ! i"
    using concat_map_upt_nth [of "length ys" "\<lambda>j. map (\<lambda>xv. (xv, ys ! j)) xs" "length xs" j i] assms
    by simp
  then show ?thesis using assms by simp
qed

lemma grid_side_pos: "0 < grid_side pts"
  unfolding grid_side_def by (rule isqrt_pos) simp

lemma square_points_eq:
  "square_points x y sz pts =
     map (\<lambda>(xv, yv). (xv, yv, 0))
       (meshgrid_xy (map (\<lambda>v. v + x) (linspace (- sz / 2) (sz / 2) (grid_side pts)))
                    (map (\<lambda>v. v + y) (linspace (- sz / 2) (sz / 2) (grid_side pts))))"
  using grid_side_pos [of pts] by (simp add: square_points_def grid_side_def Let_def)

lemma length_square_points:
  "length (square_points x y sz pts) = grid_side pts * grid_side pts"
  by (simp add: square_points_eq length_meshgrid_xy length_linspace)

text \<open>
  The count appended is \<open>n * n\<close> for the side \<open>n\<close> of the grid; \<open>n * n\<close> is the largest
  perfect square that is at most the target, the target taken as 1 when it is below 1; a
  target of 200 gives the side 14.
\<close>

lemma add_square_count:
  "fst (add_square s x y sz pts c) = grid_side pts * grid_side pts \<and>
   length (points (snd (add_square s x y sz pts c))) = length (points s) + grid_side pts * grid_side pts"
  by (simp add: add_square_def Let_def length_square_points)

lemma grid_side_largest_square:
  "int (grid_side pts * grid_side pts) \<le> max 1 pts \<and>
   (\<forall>k. int (k * k) \<le> max 1 pts \<longrightarrow> k \<le> grid_side pts)"
proof -
  have "grid_side pts * grid_side pts \<le> nat (max 1 pts)"
    unfolding grid_side_def using isqrt_bounds by blast
  then have a: "int (grid_side pts * grid_side pts) \<le> max 1 pts" by linarith
  have "k \<le> grid_side pts" if "int (k * k) \<le> max 1 pts" for k
    unfolding grid_side_def using that by (intro isqrt_largest) linarith
  then show ?thesis using a by blast
qed

lemma grid_side_200: "grid_side 200 = 14"
  by (simp add: grid_side_def isqrt_200)

text \<open>
  Every appended point has \<open>z = 0\<close>. With a side of at least 2, point \<open>j * n + i\<close> of the
  batch is the grid node \<open>(i, j)\<close>: the nodes are spaced \<open>size / (n - 1)\<close> apart and run
  from \<open>x - size / 2\<close> to \<open>x + size / 2\<close> and from \<open>y - size / 2\<close> to \<open>y + size / 2\<close>.
\<close>

lemma square_points_z: "p \<in> set (square_points x y sz pts) \<Longrightarrow> snd (snd p) = 0"
  by (auto simp: square_points_eq)

lemma square_points_nth:
  assumes n: "2 \<le> grid_side pts" and i: "i < grid_side pts" and j: "j < grid_side pts"
  shows "square_points x y sz pts ! (j * grid_side pts + i) =
     (x - sz / 2 + real i * (sz / real (grid_side pts - 1)),
      y - sz / 2 + real j * (sz / real (grid_side pts - 1)), 0)"
proof -
  let ?n = "grid_side pts"
  let ?xs = "map (\<lambda>v. v + x) (linspace (- sz / 2) (sz / 2) ?n)"
  let ?ys = "map (\<lambda>v. v + y) (linspace (- sz / 2) (sz / 2) ?n)"
  have lx: "length ?xs = ?n" and ly: "length ?ys = ?n" by (simp_all add: length_linspace)
  have "j * ?n + i < ?n * ?n"
  proof -
    have "j * ?n + i < j * ?n + ?n" using i by simp
    also have "\<dots> = Suc j * ?n" by simp
    also have "\<dots> \<le> ?n * ?n" using j by (intro mult_le_mono1) simp
    finally show ?thesis .
  qed
  then have "square_points x y sz pts ! (j * ?n + i) =
      (\<lambda>(xv, yv). (xv, yv, 0)) (meshgrid_xy ?xs ?ys ! (j * ?n + i))"
    by (simp add: square_points_eq length_meshgrid_xy length_linspace)
  also have "meshgrid_xy ?xs ?ys ! (j * ?n + i) = (?xs ! i, ?ys ! j)"
    using meshgrid_xy_nth [of i ?xs j ?ys] i j lx ly by simp
  finally show ?thesis
    using n i j by (simp add: length_linspace linspace_nth)
qed

lemma add_square_200:
  "fst (add_square s x y sz 200 c) = 196 \<and>
   square_points x y sz 200 ! 0 = (x - sz / 2, y - sz / 2, 0) \<and>
   square_points x y sz 200 ! 195 = (x + sz / 2, y + sz / 2, 0)"
proof -
  have a: "square_points x y sz 200 ! (0 * grid_side 200 + 0) =
     (x - sz / 2 + real 0 * (sz / real (grid_side 200 - 1)),
      y - sz / 2 + real 0 * (sz / real (grid_side 200 - 1)), 0)"
    by (rule square_points_nth) (simp_all add: grid_side_200)
  have b: "square_points x y sz 200 ! (13 * grid_side 200 + 13) =
     (x - sz / 2 + real 13 * (sz / real (grid_side 200 - 1)),
      y - sz / 2 + real 13 * (sz / real (grid_side 200 - 1)), 0)"
    by (rule square_points_nth) (simp_all add: grid_side_200)
  show ?thesis using a b add_square_count [of s x y sz 200 c] by (simp add: grid_side_200)
qed

text \<open>
  Claim C3 says that a target count of 1 appends one point located at \<open>(x, y, 0)\<close>. The
  code does not: with one sample \<open>np.linspace(-size/2, size/2, 1)\<close> is \<open>[-size/2]\<close>, so
  the single point is the corner \<open>(x - size/2, y - size/2, 0)\<close> of the square (lemma
  \<open>square_points_1\<close>). Here \<open>add_square(0, 0, 1.0, 1)\<close> on a new store returns the count 1
  and stores the point \<open>(-1/2, -1/2, 0)\<close>, which is not \<open>(0, 0, 0)\<close>.
\<close>

theorem add_square_single_point_at_corner:
  "add_square PointCloud3D_init 0 0 1 1 default_color = (1, one_point_store) \<and>
   points one_point_store = [(- 1 / 2, - 1 / 2, 0)] \<and>
   points one_point_store \<noteq> [(0, 0, 0)]"
  by (simp add: one_point_store_eq add_square_def square_points_1 PointCloud3D_init_def)

subsection \<open>The layered export\<close>

lemma base_cols_one_point: "base_cols one_point_store = [(51, 153, 229)]"
  by (simp add: base_cols_def one_point_store_eq default_color_def astype_uint8_def)

lemma astype_uint8_unit:
  assumes "0 \<le> r" "r \<le> 1"
  shows "uint (astype_uint8 (r * 255)) = \<lfloor>r * 255\<rfloor>"
proof -
  have "0 \<le> r * 255" "r * 255 \<le> 255" using assms by simp_all
  then have "0 \<le> \<lfloor>r * 255\<rfloor>" "\<lfloor>r * 255\<rfloor> \<le> 255" by (simp_all add: floor_le_iff)
  then have "\<lfloor>r * 255\<rfloor> mod 256 = \<lfloor>r * 255\<rfloor>" by simp
  then show ?thesis using \<open>0 \<le> r * 255\<close> by (simp add: astype_uint8_def uint_word_of_int take_bit_eq_mod)
qed

lemma base_cols_truncated:
  assumes "j < length (colors s)" "unit_color (colors s ! j)"
  shows "rgb_ints (base_cols s ! j) = truncated_rgb (colors s ! j)"
  using assms
  by (cases "colors s ! j")
     (simp add: base_cols_def rgb_ints_def truncated_rgb_def unit_color_def astype_uint8_unit)

lemma layer_points_length: "length (layer_points P step i) = length P"
  by (simp add: layer_points_def)

lemma layer_points_nth:
  "j < length P \<Longrightarrow> layer_points P step i ! j = (case P ! j of (x, y, z) \<Rightarrow> (x, y, z + real i * step))"
  by (simp add: layer_points_def)

lemma layer_points_0: "layer_points P step 0 = P"
  by (simp add: layer_points_def)

lemma unit_default_color: "unit_color default_color"
  by (simp add: unit_color_def default_color_def)

lemma one_point_store_fields:
  "points one_point_store \<noteq> []" "export_layer_count one_point_store = 10"
  by (simp_all add: one_point_store_eq)

text \<open>
  Claim C2 as stated fails for the colours. The store after \<open>add_square(0, 0, 1.0, 1)\<close> holds
  the default colour \<open>(0.2, 0.6, 0.9)\<close>; \<open>build_3d_layers\<close> returns the channels
  \<open>(51, 153, 229)\<close> in each of the 10 layers, and the colour scaled to [0,255] and rounded
  is \<open>(51, 153, 230)\<close>: \<open>0.9 * 255 = 229.5\<close> loses its fraction in \<open>astype(np.uint8)\<close>.
\<close>

theorem export_colors_not_rounded:
  "map rgb_ints (snd (the (build_3d_layers one_point_store))) = replicate 10 (51, 153, 229) \<and>
   map spec_rounded_rgb (colors one_point_store) = [(51, 153, 230)] \<and>
   map rgb_ints (snd (the (build_3d_layers one_point_store))) \<noteq>
     concat (replicate 10 (map spec_rounded_rgb (colors one_point_store)))"
proof -
  have "snd (the (build_3d_layers one_point_store)) = replicate 10 (51, 153, 229)"
    by (simp add: build_3d_layers_def one_point_store_fields base_cols_one_point Let_def
        upt_conv_Cons numeral_eq_Suc)
  moreover have "rgb_ints (51, 153, 229) = (51, 153, 229)"
    by (simp add: rgb_ints_def)
  ultimately have code: "map rgb_ints (snd (the (build_3d_layers one_point_store))) =
      replicate 10 (51, 153, 229)"
    by simp
  have spec: "map spec_rounded_rgb (colors one_point_store) = [(51, 153, 230)]"
    by (simp add: one_point_store_eq spec_rounded_rgb_def default_color_def round_def)
  have "replicate 10 (51, 153, 229 :: int) \<noteq> concat (replicate 10 [(51, 153, 230)])"
    by (simp add: numeral_eq_Suc)
  then show ?thesis using code spec by simp
qed

text \<open>
  Claim C2, amended. Take a non-empty store of \<open>M\<close> points with as many colours, colour
  channels between 0 and 1, \<open>export_layer_count = L \<ge> 1\<close> and
  \<open>export_layer_height = H \<ge> 0\<close>. Then \<open>build_3d_layers\<close> returns exactly \<open>M * L\<close> points
  and as many colours; layer 0 is the stored buffer; point \<open>j\<close> of layer \<open>i\<close> is point \<open>j\<close> of
  layer 0 with \<open>z\<close> increased by \<open>i * H\<close>; the colours are the same in every layer, and each
  channel is the stored float scaled by 255 with its fraction dropped (truncated, not
  rounded).
\<close>

theorem layered_export_geometry:
  assumes ne: "points s \<noteq> []"
    and len: "length (colors s) = length (points s)"
    and L: "1 \<le> export_layer_count s"
    and H: "0 \<le> export_layer_height s"
    and unit: "\<forall>c\<in>set (colors s). unit_color c"
  shows "\<exists>pts cols. build_3d_layers s = Some (pts, cols) \<and>
     length pts = length (points s) * nat (export_layer_count s) \<and>
     length cols = length pts \<and>
     take (length (points s)) pts = points s \<and>
     (\<forall>i<nat (export_layer_count s). \<forall>j<length (points s).
        pts ! (i * length (points s) + j) =
          (case pts ! j of (x, y, z) \<Rightarrow> (x, y, z + real i * export_layer_height s)) \<and>
        cols ! (i * length (points s) + j) = cols ! j \<and>
        rgb_ints (cols ! j) = truncated_rgb (colors s ! j))"
proof -
  define M where "M = length (points s)"
  define n where "n = nat (export_layer_count s)"
  define pts where "pts = concat (map (\<lambda>i. layer_points (points s) (export_layer_height s) i) [0..<n])"
  define cols where "cols = concat (map (\<lambda>i. base_cols s) [0..<n])"
  have n_pos: "0 < n" using L by (simp add: n_def)
  have M_pos: "0 < M" using ne by (simp add: M_def)
  have build: "build_3d_layers s = Some (pts, cols)"
    using ne L H by (simp add: build_3d_layers_def pts_def cols_def n_def max_def Let_def)
  have lp: "\<And>i. i < n \<Longrightarrow> length (layer_points (points s) (export_layer_height s) i) = M"
    by (simp add: layer_points_length M_def)
  have lc: "\<And>i. i < n \<Longrightarrow> length (base_cols s) = M"
    using len by (simp add: base_cols_def M_def)
  have len_pts: "length pts = M * n"
    unfolding pts_def using concat_map_upt_length [of n _ M, OF lp] by (simp add: mult.commute)
  have len_cols: "length cols = M * n"
    unfolding cols_def using concat_map_upt_length [of n "\<lambda>i. base_cols s" M, OF lc]
    by (simp add: mult.commute)
  have pts_nth: "pts ! (i * M + j) = layer_points (points s) (export_layer_height s) i ! j"
    if "i < n" "j < M" for i j
    unfolding pts_def using concat_map_upt_nth [of n _ M i j, OF lp that] by simp
  have cols_nth: "cols ! (i * M + j) = base_cols s ! j" if "i < n" "j < M" for i j
    unfolding cols_def
    using concat_map_upt_nth [of n "\<lambda>i. base_cols s" M i j, OF lc that] by simp
  have pts_0: "pts ! j = points s ! j" if "j < M" for j
    using pts_nth [OF n_pos that] by (simp add: layer_points_0)
  have cols_0: "cols ! j = base_cols s ! j" if "j < M" for j
    using cols_nth [OF n_pos that] by simp
  have first: "take M pts = points s"
  proof (rule nth_equalityI)
    have "M \<le> M * n" using n_pos by simp
    then show "length (take M pts) = length (points s)" by (simp add: len_pts M_def)
  next
    fix j assume "j < length (take M pts)"
    then have "j < M" by simp
    then show "take M pts ! j = points s ! j" using pts_0 by simp
  qed
  have layers: "pts ! (i * M + j) =
          (case pts ! j of (x, y, z) \<Rightarrow> (x, y, z + real i * export_layer_height s)) \<and>
        cols ! (i * M + j) = cols ! j \<and>
        rgb_ints (cols ! j) = truncated_rgb (colors s ! j)" if "i < n" "j < M" for i j
  proof -
    have j: "j < length (colors s)" using that len by (simp add: M_def)
    then have "unit_color (colors s ! j)" using unit by simp
    then have "rgb_ints (base_cols s ! j) = truncated_rgb (colors s ! j)"
      using j by (intro base_cols_truncated)
    moreover have "pts ! (i * M + j) =
          (case points s ! j of (x, y, z) \<Rightarrow> (x, y, z + real i * export_layer_height s))"
      using pts_nth [OF that] that by (simp add: layer_points_nth M_def)
    ultimately show ?thesis using that by (simp add: pts_0 cols_0 cols_nth)
  qed
  have "build_3d_layers s = Some (pts, cols) \<and> length pts = M * n \<and> length cols = length pts \<and>
     take M pts = points s \<and>
     (\<forall>i<n. \<forall>j<M.
        pts ! (i * M + j) =
          (case pts ! j of (x, y, z) \<Rightarrow> (x, y, z + real i * export_layer_height s)) \<and>
        cols ! (i * M + j) = cols ! j \<and>
        rgb_ints (cols ! j) = truncated_rgb (colors s ! j))"
    using build len_pts len_cols first layers by simp
  then show ?thesis unfolding M_def n_def by blast
qed

theorem layered_export_geometry_witness:
  "points one_point_store \<noteq> [] \<and> length (colors one_point_store) = length (points one_point_store) \<and>
   1 \<le> export_layer_count one_point_store \<and> 0 \<le> export_layer_height one_point_store \<and>
   list_all unit_color (colors one_point_store) \<and>
   (\<exists>pts cols. build_3d_layers one_point_store = Some (pts, cols) \<and> length pts = 10 \<and>
      length cols = 10 \<and> pts ! 3 = (- 1 / 2, - 1 / 2, 3 / 4) \<and>
      rgb_ints (cols ! 3) = (51, 153, 229))"
proof -
  have h1: "points one_point_store \<noteq> []" by (simp add: one_point_store_eq)
  have h2: "length (colors one_point_store) = length (points one_point_store)"
    by (simp add: one_point_store_eq)
  have h3: "1 \<le> export_layer_count one_point_store" by (simp add: one_point_store_eq)
  have h4: "0 \<le> export_layer_height one_point_store" by (simp add: one_point_store_eq)
  have h5: "\<forall>c\<in>set (colors one_point_store). unit_color c"
    by (simp add: one_point_store_eq unit_default_color)
  obtain pts cols where b: "build_3d_layers one_point_store = Some (pts, cols)"
    and lp: "length pts = length (points one_point_store) * nat (export_layer_count one_point_store)"
    and lc: "length cols = length pts"
    and tk: "take (length (points one_point_store)) pts = points one_point_store"
    and ly: "\<forall>i<nat (export_layer_count one_point_store). \<forall>j<length (points one_point_store).
        pts ! (i * length (points one_point_store) + j) =
          (case pts ! j of (x, y, z) \<Rightarrow> (x, y, z + real i * export_layer_height one_point_store)) \<and>
        cols ! (i * length (points one_point_store) + j) = cols ! j \<and>
        rgb_ints (cols ! j) = truncated_rgb (colors one_point_store ! j)"
    using layered_export_geometry [OF h1 h2 h3 h4 h5] by blast
  have p0: "pts ! 0 = (- 1 / 2, - 1 / 2, 0)"
  proof -
    have "take 1 pts ! 0 = (- 1 / 2, - 1 / 2, 0)" using tk by (simp add: one_point_store_eq)
    then show ?thesis by simp
  qed
  have "pts ! (3 * 1 + 0) = (case pts ! 0 of (x, y, z) \<Rightarrow> (x, y, z + real 3 * (1 / 4))) \<and>
        cols ! (3 * 1 + 0) = cols ! 0 \<and>
        rgb_ints (cols ! 0) = truncated_rgb default_color"
    using ly [rule_format, of 3 0] by (simp add: one_point_store_eq)
  then have "pts ! 3 = (- 1 / 2, - 1 / 2, 3 / 4) \<and> rgb_ints (cols ! 3) = (51, 153, 229)"
    using p0 by (simp add: truncated_rgb_def default_color_def)
  moreover have "length pts = 10" "length cols = 10" using lp lc by (simp_all add: one_point_store_eq)
  ultimately show ?thesis using h1 h2 h3 h4 h5 b by (auto simp: list_all_iff)
qed

section \<open>Properties of the controller\<close>

subsection \<open>Drag sampling\<close>



lemma add_square_points:
  "points (snd (add_square s x y sz pts c)) = points s @ square_points x y sz pts"
  by (simp add: add_square_def Let_def)




subsection \<open>Debounced redraw\<close>

lemma add_cloud_quick_unscheduled:
  "\<not> redraw_scheduled a \<Longrightarrow>
   add_cloud_quick a x y =
     a\<lparr>pc := snd (add_square (pc a) x y (cloud_size a) (points_per_cloud a) default_color),
       redraw_scheduled := True, after_queue := after_queue a @ [redraw_interval_ms a]\<rparr>"
  by (simp add: add_cloud_quick_def Let_def)

lemma add_cloud_quick_scheduled:
  "redraw_scheduled a \<Longrightarrow>
   add_cloud_quick a x y =
     a\<lparr>pc := snd (add_square (pc a) x y (cloud_size a) (points_per_cloud a) default_color)\<rparr>"
  by (simp add: add_cloud_quick_def Let_def)

lemma add_clouds_scheduled:
  "redraw_scheduled a \<Longrightarrow> add_clouds a cs = a\<lparr>pc := add_squares (pc a) (cloud_args a cs)\<rparr>"
proof (induction a cs rule: add_clouds.induct)
  case (1 a)
  then show ?case by (simp add: cloud_args_def)
next
  case (2 a x y rest)
  have s: "redraw_scheduled (add_cloud_quick a x y)"
    using "2.prems" by (simp add: add_cloud_quick_scheduled)
  show ?case
    using "2.IH" [OF s] "2.prems" by (simp add: add_cloud_quick_scheduled cloud_args_def)
qed

lemma add_clouds_unscheduled:
  assumes "\<not> redraw_scheduled a" "cs \<noteq> []"
  shows "add_clouds a cs =
     a\<lparr>pc := add_squares (pc a) (cloud_args a cs), redraw_scheduled := True,
       after_queue := after_queue a @ [redraw_interval_ms a]\<rparr>"
proof (cases cs)
  case Nil
  then show ?thesis using assms by simp
next
  case (Cons c rest)
  obtain x y where c: "c = (x, y)" by (cases c)
  have s: "redraw_scheduled (add_cloud_quick a x y)"
    using assms by (simp add: add_cloud_quick_unscheduled)
  show ?thesis
    using add_clouds_scheduled [OF s, of rest] assms
    by (simp add: Cons c add_cloud_quick_unscheduled cloud_args_def)
qed

lemma disp_idx_in_range: "i \<in> set (disp_idx n) \<Longrightarrow> i < n"
proof (cases "n \<le> MAX_DISPLAY")
  case True
  assume "i \<in> set (disp_idx n)"
  then show ?thesis using True by (simp add: disp_idx_def)
next
  case False
  assume "i \<in> set (disp_idx n)"
  then obtain k where k: "k < 30000" and i: "i = nat \<lfloor>real k * (real (n - 1) / 29999)\<rfloor>"
    using False by (auto simp: disp_idx_def MAX_DISPLAY_def linspace_def)
  have n: "0 < n" using False by (simp add: MAX_DISPLAY_def)
  have "real k \<le> 29999" using k by simp
  then have "real k * (real (n - 1) / 29999) \<le> 29999 * (real (n - 1) / 29999)"
    by (intro mult_right_mono) simp_all
  then have "real k * (real (n - 1) / 29999) \<le> real (n - 1)" by simp
  then have "\<lfloor>real k * (real (n - 1) / 29999)\<rfloor> \<le> int (n - 1)" by (simp add: floor_le_iff)
  then have "i \<le> n - 1" using i by simp
  then show ?thesis using n by simp
qed

lemma take_rows_ok: "length rows = n \<Longrightarrow> take_rows rows (disp_idx n) = Inr (map (\<lambda>i. rows ! i) (disp_idx n))"
  using disp_idx_in_range by (auto simp: take_rows_def list_all_iff)

lemma update_view_idle:
  "display_frame (pc a) = Inr fr \<Longrightarrow>
   update_view False a = Inr (a\<lparr>scatter_obj := fr, draws := draws a @ [(Draw_idle, fr)]\<rparr>)"
  by (cases fr) (simp_all add: update_view_def)

lemma fire_after_one:
  assumes "after_queue a = [d]" "display_frame (pc a) = Inr fr"
  shows "fire_after a =
     Inr (a\<lparr>after_queue := [], redraw_scheduled := False, scatter_obj := fr,
            draws := draws a @ [(Draw_idle, fr)]\<rparr>)"
  using assms update_view_idle [of "a\<lparr>after_queue := [], redraw_scheduled := False\<rparr>" fr]
  by (simp add: fire_after_def perform_scheduled_redraw_def)

subsection \<open>What a redraw shows\<close>

lemma display_frame_shown:
  assumes "length (colors s) = length (points s)"
  shows "display_frame s = Inr (shown_frame s)"
proof -
  have "take_rows (points s) (disp_idx (length (points s))) =
      Inr (map (\<lambda>i. points s ! i) (disp_idx (length (points s))))"
    by (rule take_rows_ok) simp
  moreover have "take_rows (colors s) (disp_idx (length (points s))) =
      Inr (map (\<lambda>i. colors s ! i) (disp_idx (length (points s))))"
    using assms by (intro take_rows_ok)
  ultimately show ?thesis
    by (simp add: display_frame_def shown_frame_def Let_def comp_def)
qed

lemma update_view_shown:
  assumes "length (colors (pc a)) = length (points (pc a))"
  shows "update_view False a =
     Inr (a\<lparr>scatter_obj := shown_frame (pc a), draws := draws a @ [(Draw_idle, shown_frame (pc a))]\<rparr>)"
  using display_frame_shown [OF assms] by (rule update_view_idle)

lemma shown_frame_all:
  assumes "length (colors s) = length (points s)" "points s \<noteq> []" "length (points s) \<le> MAX_DISPLAY"
  shows "shown_frame s = Some (map (\<lambda>(x, y, z). (x, y)) (points s), colors s)"
proof -
  have "map (\<lambda>i. case points s ! i of (x, y, z) \<Rightarrow> (x, y)) [0..<length (points s)] =
        map (\<lambda>(x, y, z). (x, y)) (points s)"
    by (rule nth_equalityI) simp_all
  moreover have "map (\<lambda>i. colors s ! i) [0..<length (points s)] = colors s"
    using assms(1) by (metis map_nth)
  ultimately show ?thesis using assms by (simp add: shown_frame_def disp_idx_def)
qed

lemma shown_frame_capped:
  assumes "MAX_DISPLAY < length (points s)"
  shows "shown_frame s =
           Some (map (\<lambda>i. case points s ! i of (x, y, z) \<Rightarrow> (x, y)) (disp_idx (length (points s))),
                 map (\<lambda>i. colors s ! i) (disp_idx (length (points s)))) \<and>
         length (disp_idx (length (points s))) = MAX_DISPLAY"
proof -
  have "points s \<noteq> []" using assms by auto
  then show ?thesis using assms by (simp add: shown_frame_def disp_idx_def length_linspace)
qed

subsection \<open>The states of a session\<close>

text \<open>
  Every handler keeps \<open>app_inv\<close>, and no handler raises from a state that satisfies it, so
  every state of a session satisfies it: the delay is 30, the buffers have the same length
  and the callbacks registered are the one that the flag stands for.
\<close>

lemma app_inv_init: "app_inv PointCloudApp_init"
  by (simp add: app_inv_def PointCloudApp_init_def PointCloud3D_init_def)

lemma update_view_inv:
  assumes "app_inv a"
  shows "\<exists>a'. update_view initial a = Inr a' \<and> app_inv a'"
proof -
  have "display_frame (pc a) = Inr (shown_frame (pc a))"
    using assms by (intro display_frame_shown) (simp add: app_inv_def)
  then show ?thesis using assms
    by (cases "shown_frame (pc a)") (simp_all add: update_view_def app_inv_def)
qed

lemma add_cloud_quick_inv: "app_inv a \<Longrightarrow> app_inv (add_cloud_quick a x y)"
  by (simp add: app_inv_def add_cloud_quick_def Let_def add_square_lengths)

lemma mouse_press_inv: "app_inv a \<Longrightarrow> app_inv (mouse_press a ev)"
proof -
  assume i: "app_inv a"
  have "app_inv (a\<lparr>mouse_down := True, last_pos := Some p\<rparr>)" for p
    using i by (simp add: app_inv_def)
  then show ?thesis
    using i by (auto simp: mouse_press_def add_cloud_quick_inv split: option.splits)
qed

lemma mouse_release_inv: "app_inv a \<Longrightarrow> app_inv (mouse_release a ev)"
  by (simp add: app_inv_def mouse_release_def)

lemma mouse_move_inv: "app_inv a \<Longrightarrow> app_inv (mouse_move a ev)"
proof -
  assume i: "app_inv a"
  have l: "app_inv (a\<lparr>last_pos := Some p\<rparr>)" for p
    using i by (simp add: app_inv_def)
  show ?thesis
    using i l by (auto simp: mouse_move_def add_cloud_quick_inv split: option.splits)
qed

lemma fire_after_inv:
  assumes "app_inv a"
  shows "\<exists>a'. fire_after a = Inr a' \<and> app_inv a'"
proof (cases "after_queue a")
  case Nil
  then show ?thesis using assms by (simp add: fire_after_def)
next
  case (Cons d rest)
  then have s: "redraw_scheduled a" and r: "rest = []"
    using assms by (auto simp: app_inv_def split: if_splits)
  have "app_inv (a\<lparr>after_queue := [], redraw_scheduled := False\<rparr>)"
    using assms by (simp add: app_inv_def)
  then show ?thesis
    using update_view_inv [of "a\<lparr>after_queue := [], redraw_scheduled := False\<rparr>" False] Cons r
    by (simp add: fire_after_def perform_scheduled_redraw_def)
qed

lemma app_undo_inv:
  assumes "app_inv a"
  shows "\<exists>a'. app_undo a = Inr a' \<and> app_inv a'"
proof -
  have i: "app_inv (a\<lparr>pc := snd (undo (pc a))\<rparr>)"
    using assms by (simp add: app_inv_def undo_lengths)
  show ?thesis
    using i update_view_inv [OF i, of False]
    by (cases "undo (pc a)") (auto simp: app_undo_def)
qed

lemma app_clear_inv:
  assumes "app_inv a"
  shows "\<exists>a'. app_clear a answer = Inr a' \<and> app_inv a'"
proof -
  have i: "app_inv (a\<lparr>pc := snd (clear (pc a))\<rparr>)"
    using assms by (simp add: app_inv_def clear_lengths)
  show ?thesis
    using assms i update_view_inv [OF i, of False]
    by (cases "clear (pc a)") (auto simp: app_clear_def)
qed

lemma update_settings_inv:
  assumes "app_inv a"
  shows "\<exists>a'. update_settings a v = Inr a' \<and> app_inv a'"
  using assms unfolding update_settings_def
  by (intro update_view_inv) (simp add: app_inv_def)

lemma handle_inv:
  assumes "app_inv a"
  shows "\<exists>a'. handle a e = Inr a' \<and> app_inv a'"
  using assms
  by (cases e)
     (simp_all add: mouse_press_inv mouse_release_inv mouse_move_inv fire_after_inv app_undo_inv
        app_clear_inv update_settings_inv update_view_inv)

lemma run_events_inv:
  assumes "app_inv a"
  shows "\<exists>a'. run_events a es = Inr a' \<and> app_inv a'"
  using assms
proof (induction es arbitrary: a)
  case Nil
  then show ?case by simp
next
  case (Cons e es)
  obtain a1 where "handle a e = Inr a1" "app_inv a1" using handle_inv [OF Cons.prems] by blast
  then show ?case using Cons.IH [of a1] by simp
qed

lemma reachable_inv: "run_events PointCloudApp_init evs = Inr a \<Longrightarrow> app_inv a"
  using run_events_inv [OF app_inv_init, of evs] by auto

subsection \<open>A window of appends\<close>

lemma add_squares_points:
  "points (add_squares s as) =
     points s @ concat (map (\<lambda>(x, y, sz, pts, c). square_points x y sz pts) as)"
  by (induction s as rule: add_squares.induct) (simp_all add: add_square_points)

lemma add_clouds_points:
  assumes "cs \<noteq> []" "\<not> redraw_scheduled a"
  shows "points (pc (add_clouds a cs)) =
     points (pc a) @
       concat (map (\<lambda>(x, y). square_points x y (cloud_size a) (points_per_cloud a)) cs)"
proof -
  have "map (\<lambda>(x, y, sz, pts, c). square_points x y sz pts) (cloud_args a cs) =
        map (\<lambda>(x, y). square_points x y (cloud_size a) (points_per_cloud a)) cs"
    by (simp add: cloud_args_def comp_def case_prod_beta)
  then show ?thesis
    using add_clouds_unscheduled [OF assms(2,1)] by (simp add: add_squares_points)
qed

lemma add_clouds_window:
  assumes inv: "app_inv a" and idle: "\<not> redraw_scheduled a" and ne: "cs \<noteq> []"
  shows "add_clouds a cs =
     a\<lparr>pc := add_squares (pc a) (cloud_args a cs), redraw_scheduled := True, after_queue := [30]\<rparr>"
  using add_clouds_unscheduled [OF idle ne] inv idle by (simp add: app_inv_def)

lemma fire_after_window:
  assumes inv: "app_inv a" and idle: "\<not> redraw_scheduled a" and ne: "cs \<noteq> []"
  shows "fire_after (add_clouds a cs) =
     Inr ((add_clouds a cs)\<lparr>after_queue := [], redraw_scheduled := False,
            scatter_obj := shown_frame (pc (add_clouds a cs)),
            draws := draws a @ [(Draw_idle, shown_frame (pc (add_clouds a cs)))]\<rparr>)"
proof -
  let ?a' = "add_clouds a cs"
  note all = add_clouds_window [OF assms]
  have pc: "pc ?a' = add_squares (pc a) (cloud_args a cs)" using all by simp
  have "length (colors (pc a)) = length (points (pc a))" using inv by (simp add: app_inv_def)
  then have "length (colors (pc ?a')) = length (points (pc ?a'))"
    unfolding pc by (rule add_squares_lengths)
  then have fr: "display_frame (pc ?a') = Inr (shown_frame (pc ?a'))"
    by (rule display_frame_shown)
  have q: "after_queue ?a' = [30]" and dr: "draws ?a' = draws a" using all by simp_all
  show ?thesis using fire_after_one [OF q fr] dr by simp
qed

subsection \<open>A window above the display cap\<close>

lemma grid_side_40000: "grid_side 40000 = 200"
  unfolding grid_side_def by (rule isqrt_unique) simp_all

lemma linspace_le:
  assumes "v \<in> set (linspace a b n)" "a \<le> b"
  shows "v \<le> b"
proof (cases "n = 1")
  case True
  then show ?thesis using assms by (simp add: linspace_def)
next
  case False
  then obtain i where i: "i < n" and v: "v = a + real i * ((b - a) / real (n - 1))"
    using assms(1) by (auto simp: linspace_def)
  have n: "0 < real (n - 1)" using i False by simp
  have "real i \<le> real (n - 1)" using i by simp
  then have "real i * ((b - a) / real (n - 1)) \<le> real (n - 1) * ((b - a) / real (n - 1))"
    using assms(2) n by (intro mult_right_mono) simp_all
  also have "\<dots> = b - a" using n by simp
  finally show ?thesis using v by simp
qed

lemma square_points_x_le:
  assumes "p \<in> set (square_points x y sz pts)" "0 \<le> sz"
  shows "fst p \<le> x + sz / 2"
proof -
  obtain v where "v \<in> set (linspace (- sz / 2) (sz / 2) (grid_side pts))" "fst p = v + x"
    using assms(1) by (auto simp: square_points_eq meshgrid_xy_def)
  then show ?thesis using linspace_le [of v "- sz / 2" "sz / 2" "grid_side pts"] assms(2) by simp
qed

lemma capped_store_points: "points capped_store = square_points 0 0 1 40000"
  by (simp add: capped_store_def add_square_def Let_def PointCloud3D_init_def)

lemma capped_store_length: "length (points capped_store) = 40000"
  by (simp add: capped_store_points length_square_points grid_side_40000)

lemma capped_store_colors: "length (colors capped_store) = length (points capped_store)"
  unfolding capped_store_def by (rule add_square_lengths) (simp add: PointCloud3D_init_def)

lemma capped_store_fields:
  "export_layer_height capped_store = 25 / 100" "export_layer_count capped_store = 10"
  by (simp_all add: capped_store_def add_square_def Let_def PointCloud3D_init_def)

lemma capped_session_run: "run_events PointCloudApp_init capped_session = Inr capped_app"
proof -
  let ?a1 = "PointCloudApp_init\<lparr>points_per_cloud := 40000, draws := [(Draw_idle, None), (Draw_idle, None)]\<rparr>"
  let ?a2 = "?a1\<lparr>pc := capped_store, redraw_scheduled := True, mouse_down := True,
       last_pos := Some (0, 0), after_queue := [30]\<rparr>"
  let ?a3 = "?a2\<lparr>redraw_scheduled := False, after_queue := [], scatter_obj := shown_frame capped_store,
       draws := [(Draw_idle, None), (Draw_idle, None), (Draw_idle, shown_frame capped_store)]\<rparr>"
  have e: "display_frame PointCloud3D_init = Inr None"
    by (simp add: display_frame_def PointCloud3D_init_def)
  have s1: "handle PointCloudApp_init (Apply_clicked (default_settings\<lparr>points_var := 40000\<rparr>)) = Inr ?a1"
    using e by (simp add: update_settings_def update_view_def default_settings_def
        PointCloudApp_init_def PointCloud3D_init_def)
  have s2: "handle ?a1 (Button_press \<lparr>button = 1, xydata = Some (0, 0)\<rparr>) = Inr ?a2"
    by (simp add: mouse_press_def add_cloud_quick_def Let_def PointCloudApp_init_def capped_store_def)
  have fr: "display_frame capped_store = Inr (shown_frame capped_store)"
    using capped_store_colors by (rule display_frame_shown)
  have s3: "handle ?a2 Timer_fires = Inr ?a3"
    using fire_after_one [of ?a2 30, OF _ ] fr by (simp add: PointCloudApp_init_def)
  have s4: "handle ?a3 (Apply_clicked (default_settings\<lparr>points_var := 1\<rparr>)) = Inr capped_app"
  proof -
    let ?b = "?a3\<lparr>points_per_cloud := 1\<rparr>"
    have b: "?a3\<lparr>points_per_cloud := max 1 (points_var (default_settings\<lparr>points_var := 1\<rparr>)),
          cloud_size := size_var (default_settings\<lparr>points_var := 1\<rparr>),
          map_width := width_var (default_settings\<lparr>points_var := 1\<rparr>),
          map_height := height_var (default_settings\<lparr>points_var := 1\<rparr>),
          map_dpi := max 30 (min 800 (dpi_var (default_settings\<lparr>points_var := 1\<rparr>))),
          pc := (pc ?a3)\<lparr>export_layer_height := \<bar>export_height_var (default_settings\<lparr>points_var := 1\<rparr>)\<bar>,
                         export_layer_count := max 1 (export_count_var (default_settings\<lparr>points_var := 1\<rparr>))\<rparr>\<rparr> = ?b"
      using capped_store_fields by (simp add: default_settings_def PointCloudApp_init_def)
    have "update_view False ?b =
        Inr (?b\<lparr>scatter_obj := shown_frame (pc ?b), draws := draws ?b @ [(Draw_idle, shown_frame (pc ?b))]\<rparr>)"
      by (rule update_view_shown) (simp add: capped_store_colors)
    then show ?thesis
      unfolding handle.simps update_settings_def b
      by (simp add: capped_app_def PointCloudApp_init_def)
  qed
  show ?thesis
    unfolding capped_session_def using s1 s2 s3 s4 by simp
qed

lemma disp_idx_40002_skips: "40000 \<notin> set (disp_idx 40002)"
proof
  assume "40000 \<in> set (disp_idx 40002)"
  then obtain k :: nat where k: "k < 30000" and i: "(40000 :: nat) = nat \<lfloor>real k * (40001 / 29999)\<rfloor>"
    by (auto simp: disp_idx_def MAX_DISPLAY_def linspace_def)
  have f: "\<lfloor>real k * (40001 / 29999)\<rfloor> = 40000" using i by linarith
  have lo: "40000 \<le> real k * (40001 / 29999)" and hi: "real k * (40001 / 29999) < 40001"
    using f by linarith+
  have "real k < 29999" using hi by simp
  then have "k \<le> 29998" by simp
  then have "real k \<le> 29998" by simp
  then have "real k * (40001 / 29999) \<le> 29998 * (40001 / 29999)"
    by (intro mult_right_mono) simp_all
  also have "\<dots> < (40000 :: real)" by simp
  finally show False using lo by simp
qed

lemma not_in_map: "(\<And>i. i \<in> set idx \<Longrightarrow> f i \<noteq> v) \<Longrightarrow> v \<notin> set (map f idx)"
  by auto

lemma capped_appends_points:
  "points (pc (add_clouds capped_app [(100, 100), (200, 200)])) =
     points capped_store @ [(199 / 2, 199 / 2, 0), (399 / 2, 399 / 2, 0)]"
proof -
  have "\<not> redraw_scheduled capped_app" by (simp add: capped_app_def PointCloudApp_init_def)
  then have "points (pc (add_clouds capped_app [(100, 100), (200, 200)])) =
     points (pc capped_app) @
       concat (map (\<lambda>(x, y). square_points x y (cloud_size capped_app) (points_per_cloud capped_app))
         [(100, 100), (200, 200)])"
    by (intro add_clouds_points) simp_all
  then show ?thesis
    by (simp add: capped_app_def PointCloudApp_init_def square_points_1)
qed

text \<open>
  Claim C7 says that the one redraw of a window reflects all \<open>N\<close> appends. Above the cap of
  \<open>update_view\<close> it does not. The session \<open>capped_session\<close> leaves a store of 40000 points
  with no redraw pending and one point per cloud. Two appends, at (100, 100) and at
  (200, 200), then store the points \<open>(99.5, 99.5, 0)\<close> and \<open>(199.5, 199.5, 0)\<close> as rows 40000
  and 40001 of 40002. When the callback fires, the one redraw shows 30000 points, the rows
  \<open>np.linspace(0, 40001, 30000).astype(int)\<close>, which pass from row 39999 to row 40001: the
  point of the first append is not among the points drawn.
\<close>

theorem redraw_omits_append_above_cap:
  "run_events PointCloudApp_init capped_session = Inr capped_app \<and>
   \<not> redraw_scheduled capped_app \<and>
   length (points (pc (add_clouds capped_app [(100, 100), (200, 200)]))) = 40002 \<and>
   points (pc (add_clouds capped_app [(100, 100), (200, 200)])) ! 40000 = (199 / 2, 199 / 2, 0) \<and>
   (case fire_after (add_clouds capped_app [(100, 100), (200, 200)]) of
      Inl e \<Rightarrow> False
    | Inr b \<Rightarrow>
        (case scatter_obj b of
           None \<Rightarrow> False
         | Some (xy, cols) \<Rightarrow>
             draws b = draws capped_app @ [(Draw_idle, Some (xy, cols))] \<and>
             length xy = 30000 \<and> (199 / 2, 199 / 2) \<notin> set xy))"
proof -
  let ?cs = "[(100, 100), (200, 200)] :: (real \<times> real) list"
  let ?a = "add_clouds capped_app ?cs"
  let ?P = "points (pc ?a)"
  have idle: "\<not> redraw_scheduled capped_app" by (simp add: capped_app_def PointCloudApp_init_def)
  have P: "?P = points capped_store @ [(199 / 2, 199 / 2, 0), (399 / 2, 399 / 2, 0)]"
    by (rule capped_appends_points)
  have len: "length ?P = 40002" unfolding P by (simp add: capped_store_length)
  have at: "?P ! 40000 = (199 / 2, 199 / 2, 0)"
    unfolding P using capped_store_length by (simp add: nth_append)
  have ne: "?P \<noteq> []" using len by auto
  have idx: "length (disp_idx 40002) = 30000"
    by (simp add: disp_idx_def MAX_DISPLAY_def length_linspace)
  define xy where "xy = map (\<lambda>i. case ?P ! i of (x, y, z) \<Rightarrow> (x, y)) (disp_idx 40002)"
  define cols where "cols = map (\<lambda>i. colors (pc ?a) ! i) (disp_idx 40002)"
  have sf: "shown_frame (pc ?a) = Some (xy, cols)"
    using ne len by (simp add: shown_frame_def xy_def cols_def del: add_clouds.simps)
  have other: "(case ?P ! i of (x, y, z) \<Rightarrow> (x, y)) \<noteq> (199 / 2, 199 / 2)"
    if "i \<in> set (disp_idx 40002)" for i
  proof -
    have "i < 40002" using that by (rule disp_idx_in_range)
    moreover have "i \<noteq> 40000" using that disp_idx_40002_skips by auto
    ultimately consider "i < 40000" | "i = 40001" by linarith
    then show ?thesis
    proof cases
      case 1
      then have "?P ! i = points capped_store ! i"
        unfolding P by (simp add: nth_append capped_store_length)
      moreover have "points capped_store ! i \<in> set (square_points 0 0 1 40000)"
        using 1 capped_store_length by (simp add: capped_store_points [symmetric])
      then have "fst (points capped_store ! i) \<le> 0 + 1 / 2"
        by (rule square_points_x_le) simp
      ultimately show ?thesis by (auto simp: case_prod_beta simp del: add_clouds.simps)
    next
      case 2
      then have "?P ! i = (399 / 2, 399 / 2, 0)"
        unfolding P by (simp add: nth_append capped_store_length)
      then show ?thesis by (simp del: add_clouds.simps)
    qed
  qed
  have notin: "(199 / 2, 199 / 2) \<notin> set xy"
    unfolding xy_def by (rule not_in_map) (rule other)
  have lxy: "length xy = 30000" by (simp add: xy_def idx)
  have inv: "app_inv capped_app" using capped_session_run by (rule reachable_inv)
  have fire: "fire_after ?a =
      Inr (?a\<lparr>after_queue := [], redraw_scheduled := False, scatter_obj := shown_frame (pc ?a),
             draws := draws capped_app @ [(Draw_idle, shown_frame (pc ?a))]\<rparr>)"
    by (rule fire_after_window [OF inv idle]) simp
  show ?thesis
    using capped_session_run idle len at notin lxy by (simp add: fire sf del: add_clouds.simps)
qed

text \<open>
  Claim C7, amended. Let \<open>a\<close> be a state of a session (reached from the new application by
  any events) with no redraw pending, and let \<open>N \<ge> 1\<close> appends \<open>cs\<close> arrive. No callback is
  registered in \<open>a\<close>. After the first append, and after each of the later ones (after the
  first \<open>k\<close> appends, for every \<open>k\<close> from 1 to \<open>N\<close>), the flag is set, exactly one callback is
  registered, with the delay 30, and nothing has been drawn. The store then holds the
  points of before followed by the clouds of the \<open>N\<close> appends in order. When the callback
  fires it clears the flag, leaves no callback registered and draws exactly once, with
  \<open>draw_idle\<close>, the frame \<open>shown_frame\<close> of that store: every stored point with its colour,
  in order, when the store holds at most 30000 points, and above that the 30000 rows
  \<open>np.linspace(0, total - 1, 30000).astype(int)\<close> of it. An append after the callback has
  fired registers exactly one new callback with the delay 30.
\<close>

theorem debounce_coalesces:
  assumes reach: "run_events PointCloudApp_init evs = Inr a"
    and idle: "\<not> redraw_scheduled a" and ne: "cs \<noteq> []"
  shows "after_queue a = [] \<and>
         (\<forall>k. 1 \<le> k \<and> k \<le> length cs \<longrightarrow>
            redraw_scheduled (add_clouds a (take k cs)) \<and>
            after_queue (add_clouds a (take k cs)) = [30] \<and>
            draws (add_clouds a (take k cs)) = draws a) \<and>
         pc (add_clouds a cs) = add_squares (pc a) (cloud_args a cs) \<and>
         points (pc (add_clouds a cs)) =
           points (pc a) @
             concat (map (\<lambda>(x, y). square_points x y (cloud_size a) (points_per_cloud a)) cs) \<and>
         fire_after (add_clouds a cs) =
           Inr ((add_clouds a cs)\<lparr>after_queue := [], redraw_scheduled := False,
                  scatter_obj := shown_frame (pc (add_clouds a cs)),
                  draws := draws a @ [(Draw_idle, shown_frame (pc (add_clouds a cs)))]\<rparr>) \<and>
         (length (points (pc (add_clouds a cs))) \<le> MAX_DISPLAY \<longrightarrow>
            shown_frame (pc (add_clouds a cs)) =
              Some (map (\<lambda>(x, y, z). (x, y)) (points (pc (add_clouds a cs))),
                    colors (pc (add_clouds a cs)))) \<and>
         (MAX_DISPLAY < length (points (pc (add_clouds a cs))) \<longrightarrow>
            shown_frame (pc (add_clouds a cs)) =
              Some (map (\<lambda>i. case points (pc (add_clouds a cs)) ! i of (x, y, z) \<Rightarrow> (x, y))
                      (disp_idx (length (points (pc (add_clouds a cs))))),
                    map (\<lambda>i. colors (pc (add_clouds a cs)) ! i)
                      (disp_idx (length (points (pc (add_clouds a cs)))))) \<and>
            length (disp_idx (length (points (pc (add_clouds a cs))))) = MAX_DISPLAY) \<and>
         (\<forall>b x y. fire_after (add_clouds a cs) = Inr b \<longrightarrow>
            \<not> redraw_scheduled b \<and> after_queue b = [] \<and>
            redraw_scheduled (add_cloud_quick b x y) \<and> after_queue (add_cloud_quick b x y) = [30])"
proof -
  let ?a' = "add_clouds a cs"
  have inv: "app_inv a" using reach by (rule reachable_inv)
  have queue: "after_queue a = []" and delay: "redraw_interval_ms a = 30"
    and len: "length (colors (pc a)) = length (points (pc a))"
    using inv idle by (simp_all add: app_inv_def)
  note all = add_clouds_window [OF inv idle ne]
  have pre: "redraw_scheduled (add_clouds a (take k cs)) \<and>
            after_queue (add_clouds a (take k cs)) = [30] \<and>
            draws (add_clouds a (take k cs)) = draws a" if "1 \<le> k \<and> k \<le> length cs" for k
  proof -
    have "take k cs \<noteq> []" using that ne by (cases cs; cases k) simp_all
    then show ?thesis using add_clouds_window [OF inv idle, of "take k cs"] by simp
  qed
  have pts: "points (pc ?a') =
      points (pc a) @ concat (map (\<lambda>(x, y). square_points x y (cloud_size a) (points_per_cloud a)) cs)"
    using ne idle by (rule add_clouds_points)
  have pc: "pc ?a' = add_squares (pc a) (cloud_args a cs)" using all by simp
  have len': "length (colors (pc ?a')) = length (points (pc ?a'))"
    unfolding pc using len by (rule add_squares_lengths)
  have fire: "fire_after ?a' =
      Inr (?a'\<lparr>after_queue := [], redraw_scheduled := False, scatter_obj := shown_frame (pc ?a'),
             draws := draws a @ [(Draw_idle, shown_frame (pc ?a'))]\<rparr>)"
    using inv idle ne by (rule fire_after_window)
  have nonempty: "points (pc ?a') \<noteq> []"
  proof -
    obtain c rest where cs: "cs = c # rest" using ne by (cases cs) auto
    obtain x y where c: "c = (x, y)" by (cases c)
    have "square_points x y (cloud_size a) (points_per_cloud a) \<noteq> []"
      using length_square_points_pos [of x y "cloud_size a" "points_per_cloud a"] by auto
    then show ?thesis unfolding pts by (simp add: cs c)
  qed
  have small: "shown_frame (pc ?a') =
              Some (map (\<lambda>(x, y, z). (x, y)) (points (pc ?a')), colors (pc ?a'))"
    if "length (points (pc ?a')) \<le> MAX_DISPLAY"
    using len' nonempty that by (rule shown_frame_all)
  have big: "shown_frame (pc ?a') =
              Some (map (\<lambda>i. case points (pc ?a') ! i of (x, y, z) \<Rightarrow> (x, y))
                      (disp_idx (length (points (pc ?a')))),
                    map (\<lambda>i. colors (pc ?a') ! i) (disp_idx (length (points (pc ?a'))))) \<and>
            length (disp_idx (length (points (pc ?a')))) = MAX_DISPLAY"
    if "MAX_DISPLAY < length (points (pc ?a'))"
    using that by (rule shown_frame_capped)
  have after: "\<not> redraw_scheduled b \<and> after_queue b = [] \<and>
            redraw_scheduled (add_cloud_quick b x y) \<and> after_queue (add_cloud_quick b x y) = [30]"
    if "fire_after ?a' = Inr b" for b x y
  proof -
    have b: "b = ?a'\<lparr>after_queue := [], redraw_scheduled := False,
                     scatter_obj := shown_frame (pc ?a'),
                     draws := draws a @ [(Draw_idle, shown_frame (pc ?a'))]\<rparr>"
      using that fire by simp
    have d: "redraw_interval_ms b = 30" unfolding b using all delay by simp
    have "\<not> redraw_scheduled b" "after_queue b = []" unfolding b by simp_all
    then show ?thesis using d by (simp add: add_cloud_quick_unscheduled)
  qed
  show ?thesis
    using queue pre pc pts fire small big after by (intro conjI allI impI) blast+
qed

theorem debounce_coalesces_witness:
  "run_events PointCloudApp_init [] = Inr PointCloudApp_init \<and>
   \<not> redraw_scheduled PointCloudApp_init \<and>
   [(0, 0), (1, 1 :: real)] \<noteq> ([] :: (real \<times> real) list) \<and>
   redraw_scheduled (add_clouds PointCloudApp_init [(0, 0), (1, 1)]) \<and>
   after_queue (add_clouds PointCloudApp_init [(0, 0), (1, 1)]) = [30] \<and>
   draws (add_clouds PointCloudApp_init [(0, 0), (1, 1)]) = [(Draw_idle, None)] \<and>
   length (points (pc (add_clouds PointCloudApp_init [(0, 0), (1, 1)]))) = 392 \<and>
   (\<exists>b. fire_after (add_clouds PointCloudApp_init [(0, 0), (1, 1)]) = Inr b \<and>
        \<not> redraw_scheduled b \<and> after_queue b = [] \<and>
        draws b =
          [(Draw_idle, None),
           (Draw_idle,
            Some (map (\<lambda>(x, y, z). (x, y)) (points (pc (add_clouds PointCloudApp_init [(0, 0), (1, 1)]))),
                  colors (pc (add_clouds PointCloudApp_init [(0, 0), (1, 1)]))))] \<and>
        after_queue (add_cloud_quick b 2 2) = [30])"
proof -
  let ?cs = "[(0, 0), (1, 1)] :: (real \<times> real) list"
  let ?a = "add_clouds PointCloudApp_init ?cs"
  have h1: "run_events PointCloudApp_init [] = Inr PointCloudApp_init" by simp
  have h2: "\<not> redraw_scheduled PointCloudApp_init" by (simp add: PointCloudApp_init_def)
  have h3: "?cs \<noteq> []" by simp
  note c7 = debounce_coalesces [OF h1 h2 h3]
  have two: "1 \<le> (2 :: nat) \<and> 2 \<le> length ?cs" by simp
  have t: "take 2 ?cs = ?cs" by simp
  have pre: "redraw_scheduled ?a \<and> after_queue ?a = [30] \<and> draws ?a = draws PointCloudApp_init"
    using c7 [THEN conjunct2, THEN conjunct1, rule_format, OF two] unfolding t .
  have pts: "points (pc ?a) =
      points (pc PointCloudApp_init) @
        concat (map (\<lambda>(x, y). square_points x y (cloud_size PointCloudApp_init)
          (points_per_cloud PointCloudApp_init)) ?cs)"
    using c7 [THEN conjunct2, THEN conjunct2, THEN conjunct2, THEN conjunct1] .
  have len: "length (points (pc ?a)) = 392"
    unfolding pts
    by (simp add: PointCloudApp_init_def PointCloud3D_init_def length_square_points grid_side_200)
  have fire: "fire_after ?a =
      Inr (?a\<lparr>after_queue := [], redraw_scheduled := False, scatter_obj := shown_frame (pc ?a),
             draws := draws PointCloudApp_init @ [(Draw_idle, shown_frame (pc ?a))]\<rparr>)"
    using c7 [THEN conjunct2, THEN conjunct2, THEN conjunct2, THEN conjunct2, THEN conjunct1] .
  have le: "length (points (pc ?a)) \<le> MAX_DISPLAY" unfolding len by (simp add: MAX_DISPLAY_def)
  have sf: "shown_frame (pc ?a) = Some (map (\<lambda>(x, y, z). (x, y)) (points (pc ?a)), colors (pc ?a))"
    using c7 [THEN conjunct2, THEN conjunct2, THEN conjunct2, THEN conjunct2, THEN conjunct2,
        THEN conjunct1, THEN mp, OF le] .
  define b where "b = ?a\<lparr>after_queue := [], redraw_scheduled := False,
      scatter_obj := shown_frame (pc ?a),
      draws := draws PointCloudApp_init @ [(Draw_idle, shown_frame (pc ?a))]\<rparr>"
  have fb: "fire_after ?a = Inr b" unfolding b_def by (rule fire)
  have post: "\<not> redraw_scheduled b \<and> after_queue b = [] \<and>
      redraw_scheduled (add_cloud_quick b 2 2) \<and> after_queue (add_cloud_quick b 2 2) = [30]"
    using c7 [THEN conjunct2, THEN conjunct2, THEN conjunct2, THEN conjunct2, THEN conjunct2,
        THEN conjunct2, THEN conjunct2, rule_format, OF fb] .
  have d0: "draws PointCloudApp_init = [(Draw_idle, None)]" by (simp add: PointCloudApp_init_def)
  have db: "draws b =
      [(Draw_idle, None),
       (Draw_idle, Some (map (\<lambda>(x, y, z). (x, y)) (points (pc ?a)), colors (pc ?a)))]"
    unfolding b_def sf by (simp add: d0 del: add_clouds.simps)
  have ex: "\<exists>b. fire_after ?a = Inr b \<and> \<not> redraw_scheduled b \<and> after_queue b = [] \<and>
      draws b =
        [(Draw_idle, None),
         (Draw_idle, Some (map (\<lambda>(x, y, z). (x, y)) (points (pc ?a)), colors (pc ?a)))] \<and>
      after_queue (add_cloud_quick b 2 2) = [30]"
    using fb post db by blast
  show ?thesis
    using h1 h2 h3 pre len ex unfolding d0 by (intro conjI) (blast | assumption)+
qed

end
